theory Spec2Isabelle
  imports Complex_Main "HOL-Library.AList" "HOL-Library.Char_ord" "HOL-Library.List_Lexorder"
begin

section \<open>Values, records and errors\<close>

text \<open>
  The query layer of \<^verbatim>\<open>dbmeta/db.py\<close> works on lists of Python dictionaries. A Python
  value is a member of the closed variant below. Text is a list of characters, one
  \<^typ>\<open>char\<close> per code point (code points below 256). A float is represented by the
  rational number it denotes: rounding, infinities and NaN are outside the model, and
  arithmetic on floats is exact. A dictionary is an association list in insertion order
  whose keys are distinct; \<^verbatim>\<open>d.get(k)\<close> is a lookup that yields \<^verbatim>\<open>None\<close> for a key that
  is absent.
\<close>

datatype pyval =
    VNone
  | VBool bool
  | VInt int
  | VFloat rat
  | VStr string
  | VList "pyval list"
  | VTuple "pyval list"
  | VDict "(string \<times> pyval) list"

type_synonym row = "(string \<times> pyval) list"

text \<open>
  Exceptions are values. \<open>LexError ch pos\<close> is the \<^verbatim>\<open>ValueError\<close> of the tokenizer,
  whose message names the offending character and its position.
\<close>

datatype error =
    TypeError
  | AttributeError
  | IndexError
  | ValueError string
  | LexError char nat

definition row_get :: "row \<Rightarrow> string \<Rightarrow> pyval" where
  "row_get r c = (case map_of r c of None \<Rightarrow> VNone | Some v \<Rightarrow> v)"

text \<open>\<^verbatim>\<open>isinstance(v, (int, float))\<close>: \<^verbatim>\<open>bool\<close> is a subclass of \<^verbatim>\<open>int\<close>.\<close>

fun num_of :: "pyval \<Rightarrow> rat option" where
  "num_of (VBool b) = Some (if b then 1 else 0)"
| "num_of (VInt i) = Some (of_int i)"
| "num_of (VFloat q) = Some q"
| "num_of _ = None"

definition is_num :: "pyval \<Rightarrow> bool" where
  "is_num v = (num_of v \<noteq> None)"

fun is_str :: "pyval \<Rightarrow> bool" where
  "is_str (VStr s) = True"
| "is_str _ = False"

text \<open>Python's \<^verbatim>\<open>==\<close>: numbers compare by value across bool, int and float.\<close>

fun py_eq :: "pyval \<Rightarrow> pyval \<Rightarrow> bool"
  and py_eq_list :: "pyval list \<Rightarrow> pyval list \<Rightarrow> bool"
  and py_eq_items :: "(string \<times> pyval) list \<Rightarrow> (string \<times> pyval) list \<Rightarrow> bool"
where
  "py_eq VNone b = (b = VNone)"
| "py_eq (VBool x) b = (num_of b = Some (if x then 1 else 0))"
| "py_eq (VInt i) b = (num_of b = Some (of_int i))"
| "py_eq (VFloat q) b = (num_of b = Some q)"
| "py_eq (VStr s) b = (b = VStr s)"
| "py_eq (VList xs) b = (case b of VList ys \<Rightarrow> py_eq_list xs ys | _ \<Rightarrow> False)"
| "py_eq (VTuple xs) b = (case b of VTuple ys \<Rightarrow> py_eq_list xs ys | _ \<Rightarrow> False)"
| "py_eq (VDict d) b =
     (case b of VDict e \<Rightarrow> length d = length e \<and> py_eq_items d e | _ \<Rightarrow> False)"
| "py_eq_list [] ys = (ys = [])"
| "py_eq_list (x # xs) ys =
     (case ys of [] \<Rightarrow> False | y # ys' \<Rightarrow> py_eq x y \<and> py_eq_list xs ys')"
| "py_eq_items [] e = True"
| "py_eq_items (kv # d) e =
     (case map_of e (fst kv) of None \<Rightarrow> False
      | Some w \<Rightarrow> py_eq (snd kv) w \<and> py_eq_items d e)"

text \<open>
  The four ordering operators. \<open>None\<close> is the \<^verbatim>\<open>TypeError\<close> Python raises for operands
  that have no order (\<^verbatim>\<open>None\<close>, a number against text, dictionaries). Sequences compare
  at their first unequal position, then by length.
\<close>

datatype ord_op = LT | LE | GT | GE

fun ord_rel :: "ord_op \<Rightarrow> 'a::linorder \<Rightarrow> 'a \<Rightarrow> bool" where
  "ord_rel LT a b = (a < b)"
| "ord_rel LE a b = (a \<le> b)"
| "ord_rel GT a b = (a > b)"
| "ord_rel GE a b = (a \<ge> b)"

fun py_ord :: "ord_op \<Rightarrow> pyval \<Rightarrow> pyval \<Rightarrow> bool option"
  and py_ord_list :: "ord_op \<Rightarrow> pyval list \<Rightarrow> pyval list \<Rightarrow> bool option"
where
  "py_ord opr (VList xs) b = (case b of VList ys \<Rightarrow> py_ord_list opr xs ys | _ \<Rightarrow> None)"
| "py_ord opr (VTuple xs) b = (case b of VTuple ys \<Rightarrow> py_ord_list opr xs ys | _ \<Rightarrow> None)"
| "py_ord opr (VStr s) b = (case b of VStr t \<Rightarrow> Some (ord_rel opr s t) | _ \<Rightarrow> None)"
| "py_ord opr VNone b = None"
| "py_ord opr (VDict d) b = None"
| "py_ord opr (VBool x) b =
     (case num_of b of None \<Rightarrow> None | Some q \<Rightarrow> Some (ord_rel opr (if x then 1 else 0) q))"
| "py_ord opr (VInt i) b =
     (case num_of b of None \<Rightarrow> None | Some q \<Rightarrow> Some (ord_rel opr (of_int i) q))"
| "py_ord opr (VFloat p) b =
     (case num_of b of None \<Rightarrow> None | Some q \<Rightarrow> Some (ord_rel opr p q))"
| "py_ord_list opr [] ys = Some (ord_rel opr (0::nat) (length ys))"
| "py_ord_list opr (x # xs) ys =
     (case ys of [] \<Rightarrow> Some (ord_rel opr (Suc (length xs)) 0)
      | y # ys' \<Rightarrow> if py_eq x y then py_ord_list opr xs ys' else py_ord opr x y)"

text \<open>\<^verbatim>\<open>str.lower()\<close> on code points below 256.\<close>

definition py_lower_char :: "char \<Rightarrow> char" where
  "py_lower_char c =
     (let n = (of_char c :: nat)
      in if (65 \<le> n \<and> n \<le> 90) \<or> (192 \<le> n \<and> n \<le> 222 \<and> n \<noteq> 215)
         then char_of (n + 32) else c)"

definition py_lower :: "string \<Rightarrow> string" where
  "py_lower s = map py_lower_char s"

fun starts_with :: "string \<Rightarrow> string \<Rightarrow> bool" where
  "starts_with [] s = True"
| "starts_with (p # ps) [] = False"
| "starts_with (p # ps) (c # cs) = (p = c \<and> starts_with ps cs)"

text \<open>\<^verbatim>\<open>sub in s\<close> for two strings.\<close>

fun py_str_in :: "string \<Rightarrow> string \<Rightarrow> bool" where
  "py_str_in sub [] = (sub = [])"
| "py_str_in sub (c # cs) = (starts_with sub (c # cs) \<or> py_str_in sub cs)"

fun hashable :: "pyval \<Rightarrow> bool" where
  "hashable (VList xs) = False"
| "hashable (VDict d) = False"
| "hashable (VTuple xs) = list_all hashable xs"
| "hashable _ = True"

text \<open>
  \<^verbatim>\<open>a in b\<close>: membership in a list or tuple by \<^verbatim>\<open>==\<close>, substring for text, key lookup
  for a dictionary; any other right operand is not iterable.
\<close>

fun py_in :: "pyval \<Rightarrow> pyval \<Rightarrow> error + bool" where
  "py_in a (VList xs) = Inr (list_ex (\<lambda>x. py_eq x a) xs)"
| "py_in a (VTuple xs) = Inr (list_ex (\<lambda>x. py_eq x a) xs)"
| "py_in a (VStr t) = (case a of VStr s \<Rightarrow> Inr (py_str_in s t) | _ \<Rightarrow> Inl TypeError)"
| "py_in a (VDict d) =
     (if hashable a then Inr (list_ex (\<lambda>kv. py_eq (VStr (fst kv)) a) d) else Inl TypeError)"
| "py_in a _ = Inl TypeError"

section \<open>TableQuery: the relational operators\<close>

text \<open>
  A pipeline value holds one field, \<^verbatim>\<open>rows\<close>. A condition of \<^verbatim>\<open>where\<close> and \<^verbatim>\<open>having\<close>
  is a triple of column, operator symbol and literal.
\<close>

type_synonym cond = "string \<times> string \<times> pyval"

text \<open>
  The guarded ordering test \<^verbatim>\<open>isinstance(v, (int,float)) and v > val\<close>: the right
  conjunct is evaluated only for a numeric \<open>v\<close>, and raises for a literal without order.
\<close>

definition num_cmp :: "ord_op \<Rightarrow> pyval \<Rightarrow> pyval \<Rightarrow> error + bool" where
  "num_cmp opr v val =
     (if is_num v
      then (case py_ord opr v val of None \<Rightarrow> Inl TypeError | Some b \<Rightarrow> Inr b)
      else Inr False)"

text \<open>
  One iteration of the loop in \<^verbatim>\<open>check\<close> of \<^verbatim>\<open>where\<close>: \<open>Inr False\<close> is
  \<^verbatim>\<open>return False\<close>, \<open>Inr True\<close> lets the loop go on.
\<close>

definition where_cond :: "cond \<Rightarrow> row \<Rightarrow> error + bool" where
  "where_cond c r =
     (let col = fst c; opr = fst (snd c); val = snd (snd c); v = row_get r col
      in if opr = ''='' then Inr (py_eq v val)
         else if opr = ''!='' then Inr (\<not> py_eq v val)
         else if opr = ''>'' then num_cmp GT v val
         else if opr = ''<'' then num_cmp LT v val
         else if opr = ''>='' then num_cmp GE v val
         else if opr = ''<='' then num_cmp LE v val
         else if opr = ''contains'' then
           (case v of
              VStr s \<Rightarrow> (case val of VStr t \<Rightarrow> Inr (py_str_in (py_lower t) (py_lower s))
                                  | _ \<Rightarrow> Inl AttributeError)
            | _ \<Rightarrow> Inr False)
         else if opr = ''in'' then py_in v val
         else if opr = ''not in'' then
           (case py_in v val of Inl e \<Rightarrow> Inl e | Inr b \<Rightarrow> Inr (\<not> b))
         else Inr False)"

fun where_check :: "cond list \<Rightarrow> row \<Rightarrow> error + bool" where
  "where_check [] r = Inr True"
| "where_check (c # cs) r =
     (case where_cond c r of
        Inl e \<Rightarrow> Inl e
      | Inr ok \<Rightarrow> if ok then where_check cs r else Inr False)"

text \<open>A list comprehension whose test may raise.\<close>

fun filter_rows :: "('a \<Rightarrow> error + bool) \<Rightarrow> 'a list \<Rightarrow> error + 'a list" where
  "filter_rows p [] = Inr []"
| "filter_rows p (r # rs) =
     (case p r of
        Inl e \<Rightarrow> Inl e
      | Inr keep \<Rightarrow>
          (case filter_rows p rs of
             Inl e \<Rightarrow> Inl e
           | Inr out \<Rightarrow> Inr (if keep then r # out else out)))"

definition where_rows :: "cond list \<Rightarrow> row list \<Rightarrow> error + row list" where
  "where_rows conds rows = filter_rows (where_check conds) rows"

text \<open>\<^verbatim>\<open>having\<close>: its \<^verbatim>\<open>check\<close> has the six comparison branches only.\<close>

definition having_cond :: "cond \<Rightarrow> row \<Rightarrow> error + bool" where
  "having_cond c r =
     (let col = fst c; opr = fst (snd c); val = snd (snd c); v = row_get r col
      in if opr = ''='' then Inr (py_eq v val)
         else if opr = ''!='' then Inr (\<not> py_eq v val)
         else if opr = ''>'' then num_cmp GT v val
         else if opr = ''<'' then num_cmp LT v val
         else if opr = ''>='' then num_cmp GE v val
         else if opr = ''<='' then num_cmp LE v val
         else Inr False)"

fun having_check :: "cond list \<Rightarrow> row \<Rightarrow> error + bool" where
  "having_check [] r = Inr True"
| "having_check (c # cs) r =
     (case having_cond c r of
        Inl e \<Rightarrow> Inl e
      | Inr ok \<Rightarrow> if ok then having_check cs r else Inr False)"

definition having_rows :: "cond list \<Rightarrow> row list \<Rightarrow> error + row list" where
  "having_rows conds rows = filter_rows (having_check conds) rows"

text \<open>\<^verbatim>\<open>{c: r.get(c) for c in cols}\<close>: a later duplicate of a column overwrites in place.\<close>

definition project_row :: "string list \<Rightarrow> row \<Rightarrow> row" where
  "project_row cols r = foldl (\<lambda>d c. AList.update c (row_get r c) d) [] cols"

definition select_rows :: "string list \<Rightarrow> row list \<Rightarrow> row list" where
  "select_rows cols rows = map (project_row cols) rows"

text \<open>The slice \<^verbatim>\<open>xs[:n]\<close>: a negative bound counts from the end.\<close>

definition py_slice_to :: "'a list \<Rightarrow> int \<Rightarrow> 'a list" where
  "py_slice_to xs n =
     (if n < 0 then take (nat (int (length xs) + n)) xs else take (nat n) xs)"

definition limit_rows :: "int \<Rightarrow> row list \<Rightarrow> row list" where
  "limit_rows n rows = py_slice_to rows n"

text \<open>\<^verbatim>\<open>merged = dict(l); merged.update(r)\<close>.\<close>

definition dict_update :: "row \<Rightarrow> row \<Rightarrow> row" where
  "dict_update l r = foldl (\<lambda>d kv. AList.update (fst kv) (snd kv) d) l r"

definition join_rows :: "row list \<Rightarrow> row list \<Rightarrow> string \<Rightarrow> row list" where
  "join_rows rows other on =
     concat (map (\<lambda>l. map (\<lambda>r. dict_update l r)
                        (filter (\<lambda>r. py_eq (row_get r on) (row_get l on)) other)) rows)"

definition multi_join_rows :: "row list \<Rightarrow> row list list \<Rightarrow> string \<Rightarrow> row list" where
  "multi_join_rows rows tables on = foldl (\<lambda>joined t. join_rows joined t on) rows tables"


text \<open>
  \<^verbatim>\<open>sorted(rows, key=lambda r: r.get(col), reverse=desc)\<close>. The sort compares keys with
  \<^verbatim>\<open><\<close> only and raises \<^verbatim>\<open>TypeError\<close> at the first pair without order. For scalar keys, which
  is what records hold, orderability is an equivalence between values, and a sort of two
  or more keys compares every key with some other key: it raises exactly when some two
  keys have no order. Otherwise the result is the stable sort; with \<^verbatim>\<open>reverse\<close> the list
  is reversed, sorted and reversed again, which keeps equal keys in their input order.
\<close>

fun all_orderable :: "pyval list \<Rightarrow> bool" where
  "all_orderable [] = True"
| "all_orderable (k # ks) =
     (list_all (\<lambda>j. py_ord LT k j \<noteq> None \<and> py_ord LT j k \<noteq> None) ks \<and> all_orderable ks)"

fun insort_by :: "('a \<Rightarrow> pyval) \<Rightarrow> 'a \<Rightarrow> 'a list \<Rightarrow> 'a list" where
  "insort_by key x [] = [x]"
| "insort_by key x (y # ys) =
     (if py_ord LT (key y) (key x) = Some True then y # insort_by key x ys else x # y # ys)"

definition stable_sort_by :: "('a \<Rightarrow> pyval) \<Rightarrow> 'a list \<Rightarrow> 'a list" where
  "stable_sort_by key xs = foldr (insort_by key) xs []"

definition py_sorted :: "('a \<Rightarrow> pyval) \<Rightarrow> bool \<Rightarrow> 'a list \<Rightarrow> 'a list option" where
  "py_sorted key reverse xs =
     (if all_orderable (map key xs)
      then Some (if reverse then rev (stable_sort_by key (rev xs)) else stable_sort_by key xs)
      else None)"

text \<open>\<^verbatim>\<open>order_by\<close>: when the sort raises, the exception is swallowed and the rows stay as they are.\<close>

definition order_by_rows :: "string \<Rightarrow> bool \<Rightarrow> row list \<Rightarrow> row list" where
  "order_by_rows col desc rows =
     (case py_sorted (\<lambda>r. row_get r col) desc rows of Some rs \<Rightarrow> rs | None \<Rightarrow> rows)"

text \<open>
  \<^verbatim>\<open>group_by\<close>. The \<^verbatim>\<open>defaultdict\<close> of groups is a list of keys with their rows in the order
  in which the keys first occur; a key is found by \<^verbatim>\<open>==\<close> on tuples, and a key that holds
  a list or a dictionary cannot be hashed.
\<close>

fun group_add :: "pyval list \<Rightarrow> row \<Rightarrow> (pyval list \<times> row list) list \<Rightarrow> (pyval list \<times> row list) list" where
  "group_add key r [] = [(key, [r])]"
| "group_add key r (g # gs) =
     (if py_eq_list (fst g) key then (fst g, snd g @ [r]) # gs else g # group_add key r gs)"

fun build_groups :: "string list \<Rightarrow> row list \<Rightarrow> (pyval list \<times> row list) list
    \<Rightarrow> error + (pyval list \<times> row list) list" where
  "build_groups cols [] groups = Inr groups"
| "build_groups cols (r # rs) groups =
     (let key = map (row_get r) cols
      in if list_all hashable key then build_groups cols rs (group_add key r groups)
         else Inl TypeError)"

text \<open>\<^verbatim>\<open>sum\<close>, \<^verbatim>\<open>min\<close> and \<^verbatim>\<open>max\<close> of a list of numbers; \<^verbatim>\<open>min\<close> and \<^verbatim>\<open>max\<close> return the first extreme element.\<close>

definition num_val :: "pyval \<Rightarrow> rat" where
  "num_val v = (case num_of v of None \<Rightarrow> 0 | Some q \<Rightarrow> q)"

fun is_float :: "pyval \<Rightarrow> bool" where
  "is_float (VFloat q) = True"
| "is_float v = False"

definition py_sum :: "pyval list \<Rightarrow> pyval" where
  "py_sum vals =
     (if list_ex is_float vals then VFloat (sum_list (map num_val vals))
      else VInt (\<lfloor>sum_list (map num_val vals)\<rfloor>))"

definition py_min :: "pyval \<Rightarrow> pyval list \<Rightarrow> pyval" where
  "py_min v vs = foldl (\<lambda>m x. if num_val x < num_val m then x else m) v vs"

definition py_max :: "pyval \<Rightarrow> pyval list \<Rightarrow> pyval" where
  "py_max v vs = foldl (\<lambda>m x. if num_val x > num_val m then x else m) v vs"

definition py_avg :: "pyval list \<Rightarrow> pyval" where
  "py_avg vals = VFloat (sum_list (map num_val vals) / of_nat (length vals))"

text \<open>
  The set \<^verbatim>\<open>numeric_cols\<close> is iterated in an order Python does not fix; the model takes
  the columns in the order of their first occurrence. The order only decides where the
  aggregate fields stand in the group record, which no lookup observes.
\<close>

definition numeric_cols :: "row list \<Rightarrow> string list" where
  "numeric_cols rows = remdups (concat (map (\<lambda>r. map fst (filter (\<lambda>kv. is_num (snd kv)) r)) rows))"

definition add_aggregates :: "row list \<Rightarrow> row \<Rightarrow> string \<Rightarrow> row" where
  "add_aggregates rows grp col =
     (case filter is_num (map (\<lambda>r. row_get r col) rows) of
        [] \<Rightarrow> grp
      | v # vs \<Rightarrow>
          AList.update (''AVG_'' @ col) (py_avg (v # vs))
            (AList.update (''MAX_'' @ col) (py_max v vs)
              (AList.update (''MIN_'' @ col) (py_min v vs)
                (AList.update (''SUM_'' @ col) (py_sum (v # vs)) grp))))"

definition group_record :: "pyval list \<times> row list \<Rightarrow> row" where
  "group_record g =
     foldl (add_aggregates (snd g))
       [(''_group_key'', VTuple (fst g)), (''_rows'', VList (map VDict (snd g))),
        (''COUNT'', VInt (int (length (snd g))))]
       (numeric_cols (snd g))"

definition group_by_rows :: "string list \<Rightarrow> row list \<Rightarrow> error + row list" where
  "group_by_rows cols rows =
     (case build_groups cols rows [] of
        Inl e \<Rightarrow> Inl e
      | Inr groups \<Rightarrow> Inr (map group_record groups))"

section \<open>Pipeline instances and their sequences as objects\<close>

text \<open>
  A \<^verbatim>\<open>TableQuery\<close> instance holds a reference to a list of rows. To tell a new instance and
  a new list from an old one, the objects live in a store: a list of objects, the address
  of an object being its index. Allocation appends; nothing is ever overwritten unless an
  operation says so.
\<close>

datatype obj = ListObj "row list" | TableQuery nat

type_synonym heap = "obj list"

definition alloc :: "heap \<Rightarrow> obj \<Rightarrow> heap \<times> nat" where
  "alloc h ob = (h @ [ob], length h)"

text \<open>
  The object at an address. A reference always points to an allocated object; for an
  address outside the store the lookup yields an empty list object.
\<close>

definition obj_at :: "heap \<Rightarrow> nat \<Rightarrow> obj" where
  "obj_at h a = (if a < length h then h ! a else ListObj [])"

text \<open>The address in \<^verbatim>\<open>self.rows\<close>, and the rows behind it.\<close>

definition rows_addr :: "heap \<Rightarrow> nat \<Rightarrow> nat" where
  "rows_addr h self = (case obj_at h self of TableQuery a \<Rightarrow> a | ListObj rs \<Rightarrow> self)"

definition rows_of :: "heap \<Rightarrow> nat \<Rightarrow> row list" where
  "rows_of h self = (case obj_at h (rows_addr h self) of ListObj rs \<Rightarrow> rs | TableQuery a \<Rightarrow> [])"

text \<open>\<^verbatim>\<open>TableQuery(<a list built by the operator>)\<close>: a new list, then a new instance.\<close>

definition new_table :: "heap \<Rightarrow> row list \<Rightarrow> heap \<times> nat" where
  "new_table h rows = (case alloc h (ListObj rows) of (h1, l) \<Rightarrow> alloc h1 (TableQuery l))"

definition where_obj :: "cond list \<Rightarrow> heap \<Rightarrow> nat \<Rightarrow> error + heap \<times> nat" where
  "where_obj conds h self =
     (case where_rows conds (rows_of h self) of Inl e \<Rightarrow> Inl e | Inr rs \<Rightarrow> Inr (new_table h rs))"

definition having_obj :: "cond list \<Rightarrow> heap \<Rightarrow> nat \<Rightarrow> error + heap \<times> nat" where
  "having_obj conds h self =
     (case having_rows conds (rows_of h self) of Inl e \<Rightarrow> Inl e | Inr rs \<Rightarrow> Inr (new_table h rs))"

definition select_obj :: "string list \<Rightarrow> heap \<Rightarrow> nat \<Rightarrow> heap \<times> nat" where
  "select_obj cols h self = new_table h (select_rows cols (rows_of h self))"

text \<open>\<^verbatim>\<open>order_by\<close>: a new instance over the sorted list, or \<^verbatim>\<open>return self\<close> when the sort raises.\<close>

definition order_by_obj :: "string \<Rightarrow> bool \<Rightarrow> heap \<Rightarrow> nat \<Rightarrow> heap \<times> nat" where
  "order_by_obj col desc h self =
     (case py_sorted (\<lambda>r. row_get r col) desc (rows_of h self) of
        Some rs \<Rightarrow> new_table h rs
      | None \<Rightarrow> (h, self))"

definition limit_obj :: "int \<Rightarrow> heap \<Rightarrow> nat \<Rightarrow> heap \<times> nat" where
  "limit_obj n h self = new_table h (limit_rows n (rows_of h self))"

definition join_obj :: "heap \<Rightarrow> nat \<Rightarrow> nat \<Rightarrow> string \<Rightarrow> heap \<times> nat" where
  "join_obj h self other on = new_table h (join_rows (rows_of h self) (rows_of h other) on)"

text \<open>
  \<^verbatim>\<open>multi_join\<close> starts from \<^verbatim>\<open>TableQuery(self.rows)\<close>, a new instance over the list of
  \<open>self\<close>, and joins the tables one after the other.
\<close>

fun multi_join_loop :: "heap \<Rightarrow> nat \<Rightarrow> nat list \<Rightarrow> string \<Rightarrow> heap \<times> nat" where
  "multi_join_loop h joined [] on = (h, joined)"
| "multi_join_loop h joined (t # ts) on =
     (case join_obj h joined t on of (h', joined') \<Rightarrow> multi_join_loop h' joined' ts on)"

definition multi_join_obj :: "heap \<Rightarrow> nat \<Rightarrow> nat list \<Rightarrow> string \<Rightarrow> heap \<times> nat" where
  "multi_join_obj h self tables on =
     (case alloc h (TableQuery (rows_addr h self)) of
        (h1, joined) \<Rightarrow> multi_join_loop h1 joined tables on)"

definition group_by_obj :: "string list \<Rightarrow> heap \<Rightarrow> nat \<Rightarrow> error + heap \<times> nat" where
  "group_by_obj cols h self =
     (case group_by_rows cols (rows_of h self) of Inl e \<Rightarrow> Inl e | Inr rs \<Rightarrow> Inr (new_table h rs))"

text \<open>
  The result \<open>(h', t)\<close> of an operator run in the store \<open>h\<close> is a new instance over a new
  sequence, and nothing was mutated: every object of \<open>h\<close> is in \<open>h'\<close> as it was, the
  instance \<open>t\<close> and the list it refers to were allocated after \<open>h\<close>.
\<close>

definition unchanged :: "heap \<Rightarrow> heap \<Rightarrow> bool" where
  "unchanged h h' = (length h \<le> length h' \<and> take (length h) h' = h)"

definition fresh_over :: "heap \<Rightarrow> heap \<times> nat \<Rightarrow> bool" where
  "fresh_over h res =
     (case res of (h', t) \<Rightarrow>
        unchanged h h' \<and> length h \<le> t \<and> t < length h'
        \<and> (case obj_at h' t of
             TableQuery l \<Rightarrow> length h \<le> l \<and> l < length h'
                              \<and> (case obj_at h' l of ListObj rs \<Rightarrow> True | TableQuery a \<Rightarrow> False)
           | ListObj rs \<Rightarrow> False))"

definition fresh_result :: "heap \<Rightarrow> error + heap \<times> nat \<Rightarrow> bool" where
  "fresh_result h res = (case res of Inl e \<Rightarrow> True | Inr r \<Rightarrow> fresh_over h r)"

section \<open>SQL expressions: tokens, compilation to postfix, evaluation\<close>

text \<open>
  \<^verbatim>\<open>Token = namedtuple("Token", ["type", "value"])\<close>. The type tag is one of six strings;
  the value of a parenthesis or comma token is its character, of an identifier or
  operator its text, of a literal a number, a text or (in postfix form) a list.
\<close>

datatype token = LITERAL pyval | IDENT string | OP string | LPAREN | RPAREN | COMMA

fun tvalue :: "token \<Rightarrow> pyval" where
  "tvalue (LITERAL v) = v"
| "tvalue (IDENT s) = VStr s"
| "tvalue (OP s) = VStr s"
| "tvalue LPAREN = VStr ''(''"
| "tvalue RPAREN = VStr '')''"
| "tvalue COMMA = VStr '',''"

text \<open>
  \<^verbatim>\<open>str.upper()\<close> on code points below 256. The three characters whose upper case lies
  outside that range (code points 181, 223 and 255) are left as they are.
\<close>

definition py_upper_char :: "char \<Rightarrow> char" where
  "py_upper_char c =
     (let n = (of_char c :: nat)
      in if (97 \<le> n \<and> n \<le> 122) \<or> (224 \<le> n \<and> n \<le> 254 \<and> n \<noteq> 247)
         then char_of (n - 32) else c)"

definition py_upper :: "string \<Rightarrow> string" where
  "py_upper s = map py_upper_char s"

text \<open>The precedence table, read with \<^verbatim>\<open>prec.get(op, 0)\<close>.\<close>

definition prec :: "string \<Rightarrow> nat" where
  "prec v =
     (if v = ''NOT'' then 5
      else if v = ''CONTAINS'' \<or> v = ''IN'' \<or> v = ''NOT IN'' \<or> v = ''='' \<or> v = ''!=''
              \<or> v = ''>'' \<or> v = ''<'' \<or> v = ''>='' \<or> v = ''<='' then 4
      else if v = ''AND'' then 2
      else if v = ''OR'' then 1
      else 0)"

text \<open>
  The operator stack is a list whose head is the top of the stack (\<^verbatim>\<open>opstack[-1]\<close>);
  the output grows at its end. \<open>pop_ops c\<close> is the loop
  \<^verbatim>\<open>while opstack and opstack[-1].type=="OP" and c(prec of top): out.append(opstack.pop())\<close>.
\<close>

fun pop_ops :: "(nat \<Rightarrow> bool) \<Rightarrow> token list \<Rightarrow> token list \<Rightarrow> token list \<times> token list" where
  "pop_ops c out [] = (out, [])"
| "pop_ops c out (OP v # st) = (if c (prec v) then pop_ops c (out @ [OP v]) st else (out, OP v # st))"
| "pop_ops c out (t # st) = (out, t # st)"

text \<open>\<^verbatim>\<open>while opstack and opstack[-1].type != "LPAREN": out.append(opstack.pop())\<close>.\<close>

fun pop_to_lparen :: "token list \<Rightarrow> token list \<Rightarrow> token list \<times> token list" where
  "pop_to_lparen out [] = (out, [])"
| "pop_to_lparen out (LPAREN # st) = (out, LPAREN # st)"
| "pop_to_lparen out (t # st) = pop_to_lparen (out @ [t]) st"

text \<open>
  One element of an \<^verbatim>\<open>IN\<close> list from the tokens gathered for it: the value of a single
  token, or the concatenation of the values of several, which raises unless all are text.
\<close>

fun str_values :: "token list \<Rightarrow> string option" where
  "str_values [] = Some []"
| "str_values (t # ts) =
     (case tvalue t of
        VStr s \<Rightarrow> (case str_values ts of None \<Rightarrow> None | Some r \<Rightarrow> Some (s @ r))
      | _ \<Rightarrow> None)"

definition list_item :: "token list \<Rightarrow> error + pyval" where
  "list_item current =
     (case current of
        [c] \<Rightarrow> Inr (tvalue c)
      | _ \<Rightarrow> (case str_values current of None \<Rightarrow> Inl TypeError | Some s \<Rightarrow> Inr (VStr s)))"

text \<open>
  The inner loop of the \<^verbatim>\<open>IN\<close> branch, started at \<open>j = i+2\<close>. It returns the values read
  and the tokens from position \<open>j+1\<close> on. When the tokens run out before a right
  parenthesis, the loop ends with \<open>j = len(tokens)\<close>: nothing is raised, and the tokens
  gathered since the last comma are dropped.
\<close>

fun read_in_list :: "token list \<Rightarrow> pyval list \<Rightarrow> token list \<Rightarrow> error + (pyval list \<times> token list)" where
  "read_in_list [] vals current = Inr (vals, [])"
| "read_in_list (RPAREN # ts) vals current =
     (if current \<noteq> []
      then (case list_item current of Inl e \<Rightarrow> Inl e | Inr v \<Rightarrow> Inr (vals @ [v], ts))
      else Inr (vals, ts))"
| "read_in_list (COMMA # ts) vals current =
     (if current \<noteq> []
      then (case list_item current of Inl e \<Rightarrow> Inl e | Inr v \<Rightarrow> read_in_list ts (vals @ [v]) [])
      else read_in_list ts vals current)"
| "read_in_list (t # ts) vals current = read_in_list ts vals (current @ [t])"

text \<open>Character classes of Python text, on code points below 256.\<close>

definition py_isspace :: "char \<Rightarrow> bool" where
  "py_isspace c =
     (let n = (of_char c :: nat)
      in (9 \<le> n \<and> n \<le> 13) \<or> (28 \<le> n \<and> n \<le> 32) \<or> n = 133 \<or> n = 160)"

definition is_ascii_digit :: "char \<Rightarrow> bool" where
  "is_ascii_digit c = (let n = (of_char c :: nat) in 48 \<le> n \<and> n \<le> 57)"

text \<open>\<^verbatim>\<open>str.isdigit()\<close> also accepts the superscript digits (code points 178, 179, 185).\<close>

definition py_isdigit_char :: "char \<Rightarrow> bool" where
  "py_isdigit_char c =
     (let n = (of_char c :: nat) in (48 \<le> n \<and> n \<le> 57) \<or> n = 178 \<or> n = 179 \<or> n = 185)"

definition py_isdigit :: "string \<Rightarrow> bool" where
  "py_isdigit s = (s \<noteq> [] \<and> list_all py_isdigit_char s)"

definition digit_val :: "char \<Rightarrow> nat" where
  "digit_val c = (of_char c :: nat) - 48"

definition squote :: char where "squote = CHR 0x27"
definition dquote :: char where "dquote = CHR 0x22"
definition backslash :: char where "backslash = CHR 0x5C"

text \<open>\<^verbatim>\<open>s.strip()\<close> and \<^verbatim>\<open>s.strip(chars)\<close>.\<close>

definition strip_by :: "(char \<Rightarrow> bool) \<Rightarrow> string \<Rightarrow> string" where
  "strip_by p s = rev (dropWhile p (rev (dropWhile p s)))"

definition py_strip :: "string \<Rightarrow> string" where
  "py_strip s = strip_by py_isspace s"

text \<open>The value of a string of ASCII digits.\<close>

definition digits_val :: "string \<Rightarrow> nat" where
  "digits_val s = foldl (\<lambda>acc c. acc * 10 + digit_val c) 0 s"

text \<open>
  \<^verbatim>\<open>float(s)\<close> for decimal notation: surrounding whitespace, a sign, digits with single
  underscores between them, a fraction, an exponent. \<open>None\<close> is the \<^verbatim>\<open>ValueError\<close> of a
  text that is no number. The spellings of infinity and NaN have no value in this model
  and are treated as no number.
\<close>

fun digit_tail :: "string \<Rightarrow> string \<Rightarrow> string \<times> string" where
  "digit_tail acc [] = (acc, [])"
| "digit_tail acc [c] = (if is_ascii_digit c then (acc @ [c], []) else (acc, [c]))"
| "digit_tail acc (c # d # cs) =
     (if is_ascii_digit c then digit_tail (acc @ [c]) (d # cs)
      else if c = CHR ''_'' \<and> is_ascii_digit d then digit_tail (acc @ [d]) cs
      else (acc, c # d # cs))"

text \<open>A \<^verbatim>\<open>digitpart\<close>: its digits and the rest of the text; no digits when it does not start with one.\<close>

definition digit_part :: "string \<Rightarrow> string \<times> string" where
  "digit_part s =
     (case s of [] \<Rightarrow> ([], [])
      | c # cs \<Rightarrow> if is_ascii_digit c then digit_tail [c] cs else ([], s))"

definition read_sign :: "string \<Rightarrow> bool \<times> string" where
  "read_sign s =
     (case s of [] \<Rightarrow> (False, [])
      | c # cs \<Rightarrow> if c = CHR ''-'' then (True, cs) else if c = CHR ''+'' then (False, cs)
                  else (False, s))"

definition read_exponent :: "string \<Rightarrow> (int \<times> string) option" where
  "read_exponent s =
     (case s of [] \<Rightarrow> Some (0, [])
      | c # cs \<Rightarrow>
          if c = CHR ''e'' \<or> c = CHR ''E''
          then (let (neg, r) = read_sign cs; (ds, r') = digit_part r
                in if ds = [] then None
                   else Some (if neg then - int (digits_val ds) else int (digits_val ds), r'))
          else Some (0, s))"

definition py_float :: "string \<Rightarrow> rat option" where
  "py_float s0 =
     (let (neg, s1) = read_sign (py_strip s0);
          (ip, s2) = digit_part s1;
          (fp, s3) = (case s2 of [] \<Rightarrow> ([], s2)
                      | c # cs \<Rightarrow> if c = CHR ''.'' then digit_part cs else ([], s2));
          dotted = (case s2 of [] \<Rightarrow> False | c # cs \<Rightarrow> c = CHR ''.'')
      in if ip = [] \<and> fp = [] then None
         else (case read_exponent s3 of
                 None \<Rightarrow> None
               | Some (e, rest) \<Rightarrow>
                   if rest \<noteq> [] then None
                   else (let m = (of_nat (digits_val ip) :: rat)
                                 + of_nat (digits_val fp) / 10 ^ length fp;
                             v = (if 0 \<le> e then m * 10 ^ nat e else m / 10 ^ nat (- e))
                         in Some (if neg then - v else v))))"

text \<open>
  The coercion of one element of an \<^verbatim>\<open>IN\<close> list. \<^verbatim>\<open>int(s)\<close> raises for a text that
  \<^verbatim>\<open>isdigit\<close> accepts and that holds a superscript digit. The tokenizer yields text and
  numbers only; \<^verbatim>\<open>str\<close> of a list, tuple or dictionary value is not modelled, and such
  a value is kept.
\<close>

definition coerce_item :: "pyval \<Rightarrow> error + pyval" where
  "coerce_item it =
     (if is_num it then Inr it
      else (case it of
              VStr s0 \<Rightarrow>
                (let s = strip_by (\<lambda>c. c = squote \<or> c = dquote) s0
                 in if py_isdigit s
                    then (if list_all is_ascii_digit s then Inr (VInt (int (digits_val s)))
                          else Inl (ValueError ''invalid literal for int()''))
                    else (case py_float s of Some q \<Rightarrow> Inr (VFloat q) | None \<Rightarrow> Inr (VStr s)))
            | VNone \<Rightarrow> Inr (VStr ''None'')
            | _ \<Rightarrow> Inr it))"

fun coerce_items :: "pyval list \<Rightarrow> error + pyval list" where
  "coerce_items [] = Inr []"
| "coerce_items (v # vs) =
     (case coerce_item v of
        Inl e \<Rightarrow> Inl e
      | Inr w \<Rightarrow> (case coerce_items vs of Inl e \<Rightarrow> Inl e | Inr ws \<Rightarrow> Inr (w # ws)))"

text \<open>
  The main loop of \<^verbatim>\<open>_to_rpn\<close>, on the tokens from position \<open>i\<close> on, with the output and
  the operator stack.
\<close>

function rpn_loop :: "token list \<Rightarrow> token list \<Rightarrow> token list \<Rightarrow> error + (token list \<times> token list)" where
  "rpn_loop [] out st = Inr (out, st)"
| "rpn_loop (LITERAL v # ts) out st = rpn_loop ts (out @ [LITERAL v]) st"
| "rpn_loop (IDENT c # ts) out st = rpn_loop ts (out @ [IDENT c]) st"
| "rpn_loop (OP opr # ts) out st =
     (if opr = ''NOT'' then
        (case pop_ops (\<lambda>q. q > prec opr) out st of
           (out', st') \<Rightarrow> rpn_loop ts out' (OP opr # st'))
      else if py_upper opr = ''IN'' then
        (case ts of
           LPAREN # ts' \<Rightarrow>
             (case read_in_list ts' [] [] of
                Inl e \<Rightarrow> Inl e
              | Inr (vals, rest) \<Rightarrow>
                  (case coerce_items vals of
                     Inl e \<Rightarrow> Inl e
                   | Inr parsed_vals \<Rightarrow>
                       (case pop_ops (\<lambda>q. q \<ge> prec ''IN'') (out @ [LITERAL (VList parsed_vals)]) st of
                          (out', st') \<Rightarrow> rpn_loop rest out' (OP ''IN'' # st'))))
         | _ \<Rightarrow> Inl (ValueError ''IN must be followed by (list)''))
      else
        (case pop_ops (\<lambda>q. q \<ge> prec opr) out st of
           (out', st') \<Rightarrow> rpn_loop ts out' (OP opr # st')))"
| "rpn_loop (LPAREN # ts) out st = rpn_loop ts out (LPAREN # st)"
| "rpn_loop (RPAREN # ts) out st =
     (case pop_to_lparen out st of
        (out', []) \<Rightarrow> Inl (ValueError ''Mismatched parentheses'')
      | (out', t # st') \<Rightarrow> rpn_loop ts out' st')"
| "rpn_loop (COMMA # ts) out st = rpn_loop ts out st"
  by pat_completeness auto
termination
proof -
  have shorter: "read_in_list ts vals current = Inr (vs, rest) \<Longrightarrow> length rest \<le> length ts"
    for ts vals current vs rest
    by (induction ts vals current rule: read_in_list.induct)
       (auto split: if_splits sum.splits)
  show ?thesis
    by (relation "measure (\<lambda>(ts, out, st). length ts)") (auto dest: shorter)
qed

text \<open>The final loop that empties the operator stack.\<close>

fun drain :: "token list \<Rightarrow> token list \<Rightarrow> error + token list" where
  "drain out [] = Inr out"
| "drain out (LPAREN # st) = Inl (ValueError ''Mismatched parentheses'')"
| "drain out (RPAREN # st) = Inl (ValueError ''Mismatched parentheses'')"
| "drain out (t # st) = drain (out @ [t]) st"

fun upper_op :: "token \<Rightarrow> token" where
  "upper_op (OP v) = OP (py_upper v)"
| "upper_op t = t"

definition to_rpn :: "token list \<Rightarrow> error + token list" where
  "to_rpn tokens =
     (case rpn_loop tokens [] [] of
        Inl e \<Rightarrow> Inl e
      | Inr (out, opstack) \<Rightarrow>
          (case drain out opstack of Inl e \<Rightarrow> Inl e | Inr out' \<Rightarrow> Inr (map upper_op out')))"

text \<open>\<^verbatim>\<open>bool(v)\<close>.\<close>

fun truthy :: "pyval \<Rightarrow> bool" where
  "truthy VNone = False"
| "truthy (VBool b) = b"
| "truthy (VInt i) = (i \<noteq> 0)"
| "truthy (VFloat q) = (q \<noteq> 0)"
| "truthy (VStr s) = (s \<noteq> [])"
| "truthy (VList xs) = (xs \<noteq> [])"
| "truthy (VTuple xs) = (xs \<noteq> [])"
| "truthy (VDict d) = (d \<noteq> [])"

text \<open>
  An ordering comparison of the evaluator: both operands not \<^verbatim>\<open>None\<close>, and a
  \<^verbatim>\<open>TypeError\<close> of the comparison caught and turned into \<^verbatim>\<open>False\<close>.
\<close>

definition ord_test :: "ord_op \<Rightarrow> pyval \<Rightarrow> pyval \<Rightarrow> bool" where
  "ord_test opr a b =
     (a \<noteq> VNone \<and> b \<noteq> VNone \<and> (case py_ord opr a b of None \<Rightarrow> False | Some r \<Rightarrow> r))"

text \<open>
  The effect of one operator token on the operand stack (head = top). The two
  \<^verbatim>\<open>stack.pop()\<close> calls stand before the \<^verbatim>\<open>try\<close>: on a stack that is too short they raise
  \<^verbatim>\<open>IndexError\<close>.
\<close>

definition binary_op :: "string \<Rightarrow> pyval \<Rightarrow> pyval \<Rightarrow> error + pyval" where
  "binary_op v a b =
     (if v = ''='' then Inr (VBool (py_eq a b))
      else if v = ''!='' then Inr (VBool (\<not> py_eq a b))
      else if v = ''>'' then Inr (VBool (ord_test GT a b))
      else if v = ''<'' then Inr (VBool (ord_test LT a b))
      else if v = ''>='' then Inr (VBool (ord_test GE a b))
      else if v = ''<='' then Inr (VBool (ord_test LE a b))
      else if v = ''CONTAINS'' then
        Inr (VBool (case a of
                      VStr s \<Rightarrow> (case b of VStr t \<Rightarrow> py_str_in (py_lower t) (py_lower s)
                                          | _ \<Rightarrow> False)
                    | _ \<Rightarrow> False))
      else if v = ''IN'' then
        (if b \<noteq> VNone
         then (case py_in a b of Inl e \<Rightarrow> Inl e | Inr r \<Rightarrow> Inr (VBool r))
         else Inr (VBool False))
      else if v = ''NOT IN'' then
        (case py_in a b of Inl e \<Rightarrow> Inl e | Inr r \<Rightarrow> Inr (VBool (\<not> r)))
      else if v = ''AND'' then Inr (VBool (truthy a \<and> truthy b))
      else Inr (VBool (truthy a \<or> truthy b)))"

definition is_binary :: "string \<Rightarrow> bool" where
  "is_binary v =
     (v = ''='' \<or> v = ''!='' \<or> v = ''>'' \<or> v = ''<'' \<or> v = ''>='' \<or> v = ''<=''
      \<or> v = ''CONTAINS'' \<or> v = ''IN'' \<or> v = ''NOT IN'' \<or> v = ''AND'' \<or> v = ''OR'')"

definition apply_op :: "string \<Rightarrow> pyval list \<Rightarrow> error + pyval list" where
  "apply_op v stack =
     (if is_binary v then
        (case stack of
           b # a # rest \<Rightarrow> (case binary_op v a b of Inl e \<Rightarrow> Inl e | Inr r \<Rightarrow> Inr (r # rest))
         | _ \<Rightarrow> Inl IndexError)
      else if v = ''NOT'' then
        (case stack of
           a # rest \<Rightarrow> Inr (VBool (\<not> truthy a) # rest)
         | [] \<Rightarrow> Inl IndexError)
      else Inl (ValueError (''Unknown op '' @ v)))"

text \<open>\<^verbatim>\<open>eval_row\<close>: the postfix tokens against one record.\<close>

fun eval_loop :: "token list \<Rightarrow> row \<Rightarrow> pyval list \<Rightarrow> error + bool" where
  "eval_loop [] r stack = Inr (case stack of [] \<Rightarrow> False | v # rest \<Rightarrow> truthy v)"
| "eval_loop (LITERAL v # tks) r stack = eval_loop tks r (v # stack)"
| "eval_loop (IDENT c # tks) r stack = eval_loop tks r (row_get r c # stack)"
| "eval_loop (OP v # tks) r stack =
     (case apply_op v stack of Inl e \<Rightarrow> Inl e | Inr stack' \<Rightarrow> eval_loop tks r stack')"
| "eval_loop (LPAREN # tks) r stack = Inl (ValueError ''Unknown token type LPAREN'')"
| "eval_loop (RPAREN # tks) r stack = Inl (ValueError ''Unknown token type RPAREN'')"
| "eval_loop (COMMA # tks) r stack = Inl (ValueError ''Unknown token type COMMA'')"

definition eval_row :: "token list \<Rightarrow> row \<Rightarrow> error + bool" where
  "eval_row rpn_expr r = eval_loop rpn_expr r []"

text \<open>\<^verbatim>\<open>_apply_filter_expr\<close>: the rows for which the postfix expression is true.\<close>

definition apply_filter_expr :: "row list \<Rightarrow> token list \<Rightarrow> error + row list" where
  "apply_filter_expr rows rpn_expr = filter_rows (eval_row rpn_expr) rows"

section \<open>The expression tokenizer\<close>

text \<open>The word characters of \<^verbatim>\<open>\b\<close> and \<^verbatim>\<open>\w\<close> (alphanumeric or underscore), on code points below 256.\<close>

definition is_word_char :: "char \<Rightarrow> bool" where
  "is_word_char c =
     (let n = (of_char c :: nat)
      in (48 \<le> n \<and> n \<le> 57) \<or> (65 \<le> n \<and> n \<le> 90) \<or> n = 95 \<or> (97 \<le> n \<and> n \<le> 122)
         \<or> n = 170 \<or> n = 178 \<or> n = 179 \<or> n = 181 \<or> n = 185 \<or> n = 186
         \<or> (188 \<le> n \<and> n \<le> 190) \<or> (192 \<le> n \<and> n \<le> 214) \<or> (216 \<le> n \<and> n \<le> 246)
         \<or> 248 \<le> n)"

text \<open>The class \<^verbatim>\<open>[A-Za-z0-9_.*]\<close>.\<close>

definition is_ident_char :: "char \<Rightarrow> bool" where
  "is_ident_char c =
     (let n = (of_char c :: nat)
      in (48 \<le> n \<and> n \<le> 57) \<or> (65 \<le> n \<and> n \<le> 90) \<or> (97 \<le> n \<and> n \<le> 122)
         \<or> c = CHR ''_'' \<or> c = CHR ''.'' \<or> c = CHR ''*'')"

text \<open>
  \<^verbatim>\<open>re.match(r"kw\b", s[i:], re.I)\<close> for a lower-case keyword: the keyword in any case,
  followed by the end of the text or by a character that is no word character.
\<close>

definition kw_at :: "string \<Rightarrow> string \<Rightarrow> bool" where
  "kw_at kw s =
     (length kw \<le> length s \<and> py_lower (take (length kw) s) = kw
      \<and> (case drop (length kw) s of [] \<Rightarrow> True | c # cs \<Rightarrow> \<not> is_word_char c))"

text \<open>\<^verbatim>\<open>re.match(r"^\d+(\.\d+)?$", tok)\<close>, for a token without a newline.\<close>

definition is_number :: "string \<Rightarrow> bool" where
  "is_number tok =
     (takeWhile is_ascii_digit tok \<noteq> []
      \<and> (case dropWhile is_ascii_digit tok of
            [] \<Rightarrow> True
          | c # fs \<Rightarrow> c = CHR ''.'' \<and> fs \<noteq> [] \<and> list_all is_ascii_digit fs))"

text \<open>
  The inner loop of a quoted literal, started at \<open>j = i+1\<close> with the character before it
  (the quote at \<open>i\<close>). It returns the literal and the text from position \<open>j+1\<close> on. When
  no closing quote is found the loop ends with \<open>j = len(s)\<close>, and nothing is raised.
\<close>

fun read_quoted :: "char \<Rightarrow> char \<Rightarrow> string \<Rightarrow> string \<Rightarrow> string \<times> string" where
  "read_quoted q prev [] buf = (buf, [])"
| "read_quoted q prev (c # cs) buf =
     (if c = q \<and> prev \<noteq> backslash then (buf, cs) else read_quoted q c cs (buf @ [c]))"

text \<open>The token of a word matched by \<^verbatim>\<open>[A-Za-z0-9_.*]+\<close>.\<close>

definition word_token :: "string \<Rightarrow> error + token" where
  "word_token tok =
     (if is_number tok
      then (if CHR ''.'' \<in> set tok
            then (case py_float tok of
                    None \<Rightarrow> Inl (ValueError ''could not convert string to float'')
                  | Some q \<Rightarrow> Inr (LITERAL (VFloat q)))
            else Inr (LITERAL (VInt (int (digits_val tok)))))
      else Inr (IDENT tok))"

text \<open>
  The loop of \<^verbatim>\<open>_tokenize_expr\<close> on the text from position \<open>i\<close> on; \<open>n\<close> is the length
  of the whole stripped text, so that \<open>i = n - length (s[i:])\<close>.
\<close>

function tokenize_from :: "nat \<Rightarrow> string \<Rightarrow> token list \<Rightarrow> error + token list" where
  "tokenize_from n [] tokens = Inr tokens"
| "tokenize_from n (ch # rest) tokens =
     (if py_isspace ch then tokenize_from n rest tokens
      else if ch = CHR ''('' then tokenize_from n rest (tokens @ [LPAREN])
      else if ch = CHR '')'' then tokenize_from n rest (tokens @ [RPAREN])
      else if take 2 (ch # rest) = ''>='' \<or> take 2 (ch # rest) = ''<=''
              \<or> take 2 (ch # rest) = ''!=''
        then tokenize_from n (drop 2 (ch # rest)) (tokens @ [OP (take 2 (ch # rest))])
      else if ch = CHR ''='' \<or> ch = CHR ''>'' \<or> ch = CHR ''<''
        then tokenize_from n rest (tokens @ [OP [ch]])
      else if kw_at ''and'' (ch # rest)
        then tokenize_from n (drop 3 (ch # rest)) (tokens @ [OP ''AND''])
      else if kw_at ''or'' (ch # rest)
        then tokenize_from n (drop 2 (ch # rest)) (tokens @ [OP ''OR''])
      else if kw_at ''not'' (ch # rest)
        then tokenize_from n (drop 3 (ch # rest)) (tokens @ [OP ''NOT''])
      else if kw_at ''contains'' (ch # rest)
        then tokenize_from n (drop 8 (ch # rest)) (tokens @ [OP ''CONTAINS''])
      else if kw_at ''in'' (ch # rest)
        then tokenize_from n (drop 2 (ch # rest)) (tokens @ [OP ''IN''])
      else if ch = squote \<or> ch = dquote
        then (case read_quoted ch ch rest [] of
                (val, rest') \<Rightarrow> tokenize_from n rest' (tokens @ [LITERAL (VStr val)]))
      else if is_ident_char ch
        then (case word_token (takeWhile is_ident_char (ch # rest)) of
                Inl e \<Rightarrow> Inl e
              | Inr tk \<Rightarrow>
                  tokenize_from n (drop (length (takeWhile is_ident_char (ch # rest))) (ch # rest))
                    (tokens @ [tk]))
      else if ch = CHR '','' then tokenize_from n rest (tokens @ [COMMA])
      else Inl (LexError ch (n - Suc (length rest))))"
  by pat_completeness auto
termination
proof -
  have shorter: "read_quoted q prev cs buf = (val, rest) \<Longrightarrow> length rest \<le> length cs"
    for q prev cs buf val rest
    by (induction cs arbitrary: prev buf) (auto split: if_splits intro: le_SucI)
  show ?thesis
    by (relation "measure (\<lambda>(n, s, tokens). length s)")
       (auto dest: shorter [OF sym] simp: less_Suc_eq_le)
qed

definition tokenize_expr :: "string \<Rightarrow> error + token list" where
  "tokenize_expr text = (let s = py_strip text in tokenize_from (length s) s [])"

text \<open>\<^verbatim>\<open>_parse_boolean_expression\<close>.\<close>

definition parse_boolean_expression :: "string \<Rightarrow> error + token list" where
  "parse_boolean_expression text =
     (case tokenize_expr text of Inl e \<Rightarrow> Inl e | Inr tokens \<Rightarrow> to_rpn tokens)"

section \<open>The grammar of boolean expressions, as token sequences\<close>

text \<open>
  The expressions of the SQL subset, written as the token sequences the tokenizer yields
  for them. An \<open>operand\<close> is an expression that binds tighter than \<^verbatim>\<open>AND\<close> and \<^verbatim>\<open>OR\<close>: a
  column or literal, a comparison or containment test of two of them, a membership test
  \<^verbatim>\<open>a IN (x, y, ...)\<close> or \<^verbatim>\<open>a NOT IN (x, y, ...)\<close>, a parenthesised expression, and a
  negated atom, comparison or parenthesised expression. A \<open>bexpr\<close> is a sequence of operands
  joined by \<^verbatim>\<open>AND\<close> and \<^verbatim>\<open>OR\<close>.
\<close>

definition cmp_op :: "string \<Rightarrow> bool" where
  "cmp_op v = (v = ''='' \<or> v = ''!='' \<or> v = ''>'' \<or> v = ''<'' \<or> v = ''>='' \<or> v = ''<=''
               \<or> v = ''CONTAINS'')"

fun is_atom :: "token \<Rightarrow> bool" where
  "is_atom (IDENT c) = True"
| "is_atom (LITERAL v) = True"
| "is_atom t = False"

fun comma_sep :: "token list \<Rightarrow> token list" where
  "comma_sep [] = []"
| "comma_sep [t] = [t]"
| "comma_sep (t # u # ts) = t # COMMA # comma_sep (u # ts)"

inductive operand :: "token list \<Rightarrow> bool" and bexpr :: "token list \<Rightarrow> bool" where
  atom: "is_atom a \<Longrightarrow> operand [a]"
| not_atom: "is_atom a \<Longrightarrow> operand [OP ''NOT'', a]"
| cmp: "is_atom a \<Longrightarrow> cmp_op opr \<Longrightarrow> is_atom b \<Longrightarrow> operand [a, OP opr, b]"
| not_cmp: "is_atom a \<Longrightarrow> cmp_op opr \<Longrightarrow> is_atom b \<Longrightarrow> operand [OP ''NOT'', a, OP opr, b]"
| in_list: "is_atom a \<Longrightarrow> list_all is_atom items \<Longrightarrow> coerce_items (map tvalue items) = Inr ws
            \<Longrightarrow> operand ([a, OP ''IN'', LPAREN] @ comma_sep items @ [RPAREN])"
| not_in_list: "is_atom a \<Longrightarrow> list_all is_atom items \<Longrightarrow> coerce_items (map tvalue items) = Inr ws
            \<Longrightarrow> operand ([a, OP ''NOT'', OP ''IN'', LPAREN] @ comma_sep items @ [RPAREN])"
| paren: "bexpr e \<Longrightarrow> operand (LPAREN # e @ [RPAREN])"
| not_paren: "bexpr e \<Longrightarrow> operand (OP ''NOT'' # LPAREN # e @ [RPAREN])"
| single: "operand x \<Longrightarrow> bexpr x"
| conj: "bexpr e \<Longrightarrow> operand x \<Longrightarrow> bexpr (e @ OP ''AND'' # x)"
| disj: "bexpr e \<Longrightarrow> operand x \<Longrightarrow> bexpr (e @ OP ''OR'' # x)"

text \<open>Compilation followed by the evaluation against one record.\<close>

definition eval_tokens :: "token list \<Rightarrow> row \<Rightarrow> error + bool" where
  "eval_tokens tokens r = (case to_rpn tokens of Inl e \<Rightarrow> Inl e | Inr rpn \<Rightarrow> eval_row rpn r)"

text \<open>
  Invariants of the compiler's operator stack, used to describe how the main loop treats
  an operand in its context: the operators left pending by an operand all have precedence
  4 or more; an operand starts on a stack that is empty, or topped by a left parenthesis
  or by \<^verbatim>\<open>AND\<close>/\<^verbatim>\<open>OR\<close>; an expression starts on a stack that is empty or topped by a left
  parenthesis.
\<close>

fun is_op_tok :: "token \<Rightarrow> bool" where
  "is_op_tok (OP v) = True"
| "is_op_tok t = False"

fun tight :: "token \<Rightarrow> bool" where
  "tight (OP v) = (4 \<le> prec v)"
| "tight t = False"

fun ctx_ok :: "token list \<Rightarrow> bool" where
  "ctx_ok [] = True"
| "ctx_ok (OP v # st) = (prec v < 4)"
| "ctx_ok (LPAREN # st) = True"
| "ctx_ok (t # st) = False"

fun bottom_ok :: "token list \<Rightarrow> bool" where
  "bottom_ok [] = True"
| "bottom_ok (LPAREN # st) = True"
| "bottom_ok (t # st) = False"

text \<open>
  What the main loop does with an operand and with an expression, whatever follows them:
  it appends a fixed output \<open>r\<close> and leaves fixed pending operators \<open>p\<close> on the stack.
\<close>

definition sem_operand :: "token list \<Rightarrow> bool" where
  "sem_operand x = (\<exists>r p. list_all tight p \<and>
     (\<forall>ys out st. ctx_ok st \<longrightarrow> rpn_loop (x @ ys) out st = rpn_loop ys (out @ r) (p @ st)))"

definition sem_bexpr :: "token list \<Rightarrow> bool" where
  "sem_bexpr e = (\<exists>r p. list_all is_op_tok p \<and>
     (\<forall>ys out st. bottom_ok st \<longrightarrow> rpn_loop (e @ ys) out st = rpn_loop ys (out @ r) (p @ st)))"

section \<open>Regular expressions of the query compiler\<close>

text \<open>
  The clauses of a query are cut out with Python's \<^verbatim>\<open>re\<close> module. The patterns are data
  of the type below, which has the constructs the source uses: characters, character
  classes, sequence, alternation, the greedy option \<^verbatim>\<open>?\<close>, the greedy and the lazy
  repetition of a class (\<^verbatim>\<open>*\<close>, \<^verbatim>\<open>*?\<close>), numbered groups, the lookahead \<^verbatim>\<open>(?=...)\<close> and the
  anchors \<^verbatim>\<open>^\<close> and \<^verbatim>\<open>$\<close>. The matcher is the backtracking matcher of \<^verbatim>\<open>re\<close>: alternatives are
  tried from left to right, a greedy construct tries the longest match first, a lazy one
  the shortest, and the first way to match the whole pattern is the match.
\<close>

datatype regex =
    Eps
  | Chr char
  | Cls "char \<Rightarrow> bool"
  | Seq regex regex
  | Alt regex regex
  | Opt regex
  | Star "char \<Rightarrow> bool"
  | Lazy "char \<Rightarrow> bool"
  | Grp nat regex
  | Look regex
  | Bos
  | Eos

text \<open>
  A matcher state: the text not yet read, the character before it (\<open>None\<close> at the start
  of the text) and the groups captured so far, the latest first.
\<close>

type_synonym mstate = "string \<times> char option \<times> (nat \<times> string) list"

fun star_greedy :: "(char \<Rightarrow> bool) \<Rightarrow> string \<Rightarrow> char option \<Rightarrow> (nat \<times> string) list
    \<Rightarrow> (mstate \<Rightarrow> mstate option) \<Rightarrow> mstate option" where
  "star_greedy p [] prev caps k = k ([], prev, caps)"
| "star_greedy p (x # xs) prev caps k =
     (if p x
      then (case star_greedy p xs (Some x) caps k of
              Some r \<Rightarrow> Some r
            | None \<Rightarrow> k (x # xs, prev, caps))
      else k (x # xs, prev, caps))"

fun star_lazy :: "(char \<Rightarrow> bool) \<Rightarrow> string \<Rightarrow> char option \<Rightarrow> (nat \<times> string) list
    \<Rightarrow> (mstate \<Rightarrow> mstate option) \<Rightarrow> mstate option" where
  "star_lazy p [] prev caps k = k ([], prev, caps)"
| "star_lazy p (x # xs) prev caps k =
     (case k (x # xs, prev, caps) of
        Some r \<Rightarrow> Some r
      | None \<Rightarrow> if p x then star_lazy p xs (Some x) caps k else None)"

text \<open>
  \<open>rmatch r ic st k\<close> matches \<open>r\<close> at the state \<open>st\<close> and hands every way to do so, in the
  order of preference, to the continuation \<open>k\<close> until one succeeds; \<open>ic\<close> is the flag
  \<^verbatim>\<open>re.I\<close>. Under \<^verbatim>\<open>re.I\<close> a character of the pattern matches its two cases; the classes of
  the source hold both cases of every letter.
\<close>

primrec rmatch :: "regex \<Rightarrow> bool \<Rightarrow> mstate \<Rightarrow> (mstate \<Rightarrow> mstate option) \<Rightarrow> mstate option" where
  "rmatch Eps ic st k = k st"
| "rmatch (Chr c) ic st k =
     (case fst st of
        [] \<Rightarrow> None
      | x # xs \<Rightarrow>
          if (if ic then py_lower_char x = py_lower_char c else x = c)
          then k (xs, Some x, snd (snd st)) else None)"
| "rmatch (Cls p) ic st k =
     (case fst st of
        [] \<Rightarrow> None
      | x # xs \<Rightarrow> if p x then k (xs, Some x, snd (snd st)) else None)"
| "rmatch (Seq a b) ic st k = rmatch a ic st (\<lambda>st'. rmatch b ic st' k)"
| "rmatch (Alt a b) ic st k =
     (case rmatch a ic st k of Some r \<Rightarrow> Some r | None \<Rightarrow> rmatch b ic st k)"
| "rmatch (Opt a) ic st k =
     (case rmatch a ic st k of Some r \<Rightarrow> Some r | None \<Rightarrow> k st)"
| "rmatch (Star p) ic st k = star_greedy p (fst st) (fst (snd st)) (snd (snd st)) k"
| "rmatch (Lazy p) ic st k = star_lazy p (fst st) (fst (snd st)) (snd (snd st)) k"
| "rmatch (Grp n a) ic st k =
     rmatch a ic st
       (\<lambda>st'. k (fst st', fst (snd st'),
                 (n, take (length (fst st) - length (fst st')) (fst st)) # snd (snd st')))"
| "rmatch (Look a) ic st k =
     (case rmatch a ic st Some of
        None \<Rightarrow> None
      | Some st' \<Rightarrow> k (fst st, fst (snd st), snd (snd st')))"
| "rmatch Bos ic st k = (if fst (snd st) = None then k st else None)"
| "rmatch Eos ic st k = (if fst st = [] \<or> fst st = [CHR 0x0A] then k st else None)"

text \<open>
  A match object: where the match starts, the text after it, and its groups.
  \<^verbatim>\<open>m.group(n)\<close> is \<^verbatim>\<open>None\<close> for a group that took no part in the match.
\<close>

record match_obj =
  m_start :: nat
  m_rest :: string
  m_prev :: "char option"
  m_groups :: "(nat \<times> string) list"

definition group :: "match_obj \<Rightarrow> nat \<Rightarrow> string option" where
  "group m n = map_of (m_groups m) n"

text \<open>\<^verbatim>\<open>re.match\<close>: a match at the start of the text.\<close>

definition match_at :: "regex \<Rightarrow> bool \<Rightarrow> string \<Rightarrow> char option \<Rightarrow> nat \<Rightarrow> match_obj option" where
  "match_at r ic s prev i =
     (case rmatch r ic (s, prev, []) Some of
        None \<Rightarrow> None
      | Some st \<Rightarrow>
          Some \<lparr>m_start = i, m_rest = fst st, m_prev = fst (snd st), m_groups = snd (snd st)\<rparr>)"

definition re_match :: "regex \<Rightarrow> bool \<Rightarrow> string \<Rightarrow> match_obj option" where
  "re_match r ic s = match_at r ic s None 0"

text \<open>\<^verbatim>\<open>re.search\<close>: the match at the first position that has one.\<close>

fun search_from :: "regex \<Rightarrow> bool \<Rightarrow> string \<Rightarrow> char option \<Rightarrow> nat \<Rightarrow> match_obj option" where
  "search_from r ic [] prev i = match_at r ic [] prev i"
| "search_from r ic (x # xs) prev i =
     (case match_at r ic (x # xs) prev i of
        Some m \<Rightarrow> Some m
      | None \<Rightarrow> search_from r ic xs (Some x) (Suc i))"

definition re_search :: "regex \<Rightarrow> bool \<Rightarrow> string \<Rightarrow> match_obj option" where
  "re_search r ic s = search_from r ic s None 0"

text \<open>
  \<^verbatim>\<open>re.findall\<close>: the matches from left to right, each search starting where the match
  before it ended (one character further after an empty match). The first argument
  bounds the number of matches; a text of length \<open>n\<close> has at most \<open>n + 1\<close> of them.
\<close>

fun findall_from :: "nat \<Rightarrow> regex \<Rightarrow> bool \<Rightarrow> string \<Rightarrow> char option \<Rightarrow> match_obj list" where
  "findall_from 0 r ic s prev = []"
| "findall_from (Suc n) r ic s prev =
     (case search_from r ic s prev 0 of
        None \<Rightarrow> []
      | Some m \<Rightarrow>
          m # (if length (m_rest m) < length s - m_start m
               then findall_from n r ic (m_rest m) (m_prev m)
               else (case m_rest m of
                       [] \<Rightarrow> []
                     | x # xs \<Rightarrow> findall_from n r ic xs (Some x))))"

definition re_findall :: "regex \<Rightarrow> bool \<Rightarrow> string \<Rightarrow> match_obj list" where
  "re_findall r ic s = findall_from (Suc (length s)) r ic s None"

text \<open>Shorthands to write the patterns: a sequence, a literal text, \<^verbatim>\<open>+\<close> on a class.\<close>

definition seqs :: "regex list \<Rightarrow> regex" where
  "seqs rs = foldr Seq rs Eps"

definition lit :: "string \<Rightarrow> regex" where
  "lit s = seqs (map Chr s)"

definition plus :: "(char \<Rightarrow> bool) \<Rightarrow> regex" where
  "plus p = Seq (Cls p) (Star p)"

text \<open>The classes \<^verbatim>\<open>.\<close>, \<^verbatim>\<open>[a-zA-Z0-9_]\<close> and \<^verbatim>\<open>[A-Za-z0-9_*]\<close>; \<^verbatim>\<open>\s\<close> is \<open>py_isspace\<close>.\<close>

definition any_char :: "char \<Rightarrow> bool" where
  "any_char c = (c \<noteq> CHR 0x0A)"

definition is_name_char :: "char \<Rightarrow> bool" where
  "is_name_char c =
     (let n = (of_char c :: nat)
      in (48 \<le> n \<and> n \<le> 57) \<or> (65 \<le> n \<and> n \<le> 90) \<or> (97 \<le> n \<and> n \<le> 122) \<or> c = CHR ''_'')"

definition is_name_or_star :: "char \<Rightarrow> bool" where
  "is_name_or_star c = (is_name_char c \<or> c = CHR ''*'')"

section \<open>The query compiler and executor\<close>

text \<open>\<^verbatim>\<open>s.split()\<close>, \<^verbatim>\<open>sep.join(xs)\<close> and \<^verbatim>\<open>s.split(",")\<close>.\<close>

fun words_from :: "string \<Rightarrow> string \<Rightarrow> string list" where
  "words_from cur [] = (if cur = [] then [] else [cur])"
| "words_from cur (c # cs) =
     (if py_isspace c then (if cur = [] then words_from [] cs else cur # words_from [] cs)
      else words_from (cur @ [c]) cs)"

definition py_split :: "string \<Rightarrow> string list" where
  "py_split s = words_from [] s"

fun py_join :: "string \<Rightarrow> string list \<Rightarrow> string" where
  "py_join sep [] = []"
| "py_join sep [x] = x"
| "py_join sep (x # y # xs) = x @ sep @ py_join sep (y # xs)"

fun split_on :: "char \<Rightarrow> string \<Rightarrow> string \<Rightarrow> string list" where
  "split_on d cur [] = [cur]"
| "split_on d cur (c # cs) = (if c = d then cur # split_on d [] cs else split_on d (cur @ [c]) cs)"

text \<open>The patterns of \<^verbatim>\<open>run\<close>, \<^verbatim>\<open>_extract_between\<close> and \<^verbatim>\<open>_parse_select_items\<close>.\<close>

definition select_re :: regex where
  "select_re = seqs [lit ''select'', plus py_isspace, Grp 1 (Lazy any_char), plus py_isspace,
                     lit ''from'', Cls py_isspace]"

definition alias_tail :: regex where
  "alias_tail = Opt (seqs [plus py_isspace, Opt (seqs [lit ''as'', plus py_isspace]),
                           Grp 2 (plus is_name_char)])"

definition from_re :: regex where
  "from_re = seqs [lit ''from'', plus py_isspace, Grp 1 (plus is_name_char), alias_tail]"

definition join_re :: regex where
  "join_re = seqs [lit ''join'', plus py_isspace, Grp 1 (plus is_name_char), alias_tail,
                   plus py_isspace, lit ''using'', Star py_isspace, Chr CHR ''('',
                   Star py_isspace, Grp 3 (plus is_name_char), Star py_isspace, Chr CHR '')'']"

text \<open>An alternation \<^verbatim>\<open>(a|b|...)\<close> of one or more patterns.\<close>

fun alts :: "regex list \<Rightarrow> regex" where
  "alts [] = Eps"
| "alts [r] = r"
| "alts (r # r' # rs) = Alt r (alts (r' # rs))"

text \<open>\<^verbatim>\<open>start_pat + r"(.*?)(?=\s*" + stop_pat + ")"\<close>.\<close>

definition between_re :: "regex \<Rightarrow> regex \<Rightarrow> regex" where
  "between_re start_pat stop_pat =
     seqs [start_pat, Grp 1 (Lazy any_char), Look (seqs [Star py_isspace, stop_pat])]"

definition extract_between :: "string \<Rightarrow> regex \<Rightarrow> regex \<Rightarrow> string option" where
  "extract_between s start_pat stop_pat =
     (case re_search (between_re start_pat stop_pat) True s of
        None \<Rightarrow> None
      | Some m \<Rightarrow> (case group m 1 of None \<Rightarrow> None | Some g \<Rightarrow> Some (py_strip g)))"

definition where_start :: regex where
  "where_start = seqs [lit ''where'', plus py_isspace]"

definition where_stop :: regex where
  "where_stop = Grp 2 (alts [lit ''group by'', lit ''having'', lit ''order by'', lit ''limit'', Eos])"

definition group_start :: regex where
  "group_start = seqs [lit ''group by'', plus py_isspace]"

definition group_stop :: regex where
  "group_stop = Grp 2 (alts [lit ''having'', lit ''order by'', lit ''limit'', Eos])"

definition having_start :: regex where
  "having_start = seqs [lit ''having'', plus py_isspace]"

definition having_stop :: regex where
  "having_stop = Grp 2 (alts [lit ''order by'', lit ''limit'', Eos])"

definition order_re :: regex where
  "order_re = seqs [lit ''order by'', plus py_isspace, Grp 1 (plus is_name_char),
                    Opt (seqs [plus py_isspace, Grp 2 (Alt (lit ''asc'') (lit ''desc''))])]"

definition limit_re :: regex where
  "limit_re = seqs [lit ''limit'', plus py_isspace, Grp 1 (plus is_ascii_digit)]"

definition item_alias_re :: regex where
  "item_alias_re =
     seqs [Bos, Grp 1 (Lazy any_char),
           Alt (seqs [plus py_isspace, lit ''as'', plus py_isspace]) (plus py_isspace),
           Grp 2 (plus is_name_char), Eos]"

definition item_func_re :: regex where
  "item_func_re =
     seqs [Bos, Grp 1 (plus is_name_char), Star py_isspace, Chr CHR ''('', Star py_isspace,
           Opt (Grp 2 (plus is_name_or_star)), Star py_isspace, Chr CHR '')'', Eos]"

text \<open>
  The items of the \<^verbatim>\<open>SELECT\<close> list: an aggregate with its function, column and alias,
  and a column with its name and alias.
\<close>

datatype select_item =
    Agg string "string option" string
  | Col string string

text \<open>\<^verbatim>\<open>_split_top_level_commas\<close>: the loop over the characters, with the part being read and the depth.\<close>

fun split_commas_loop :: "string \<Rightarrow> string \<Rightarrow> int \<Rightarrow> string list" where
  "split_commas_loop [] cur depth = (if cur \<noteq> [] then [cur] else [])"
| "split_commas_loop (ch # s) cur depth =
     (let depth' = (if ch = CHR ''('' then depth + 1 else if ch = CHR '')'' then depth - 1 else depth)
      in if ch = CHR '','' \<and> depth' = 0 then cur # split_commas_loop s [] depth'
         else split_commas_loop s (cur @ [ch]) depth')"

definition split_top_level_commas :: "string \<Rightarrow> string list" where
  "split_top_level_commas s = split_commas_loop s [] 0"

definition parse_select_item :: "string \<Rightarrow> select_item" where
  "parse_select_item it0 =
     (let it = py_strip it0;
          m_alias = re_match item_alias_re True it;
          expr = (case m_alias of
                    None \<Rightarrow> it
                  | Some m \<Rightarrow> (case group m 1 of None \<Rightarrow> it | Some g \<Rightarrow> py_strip g));
          alias0 = (case m_alias of None \<Rightarrow> None | Some m \<Rightarrow> group m 2)
      in (case re_match item_func_re False expr of
            Some m \<Rightarrow>
              (let fn = py_upper (case group m 1 of None \<Rightarrow> [] | Some g \<Rightarrow> g);
                   c = group m 2;
                   dflt = fn @ ''_'' @ (case c of None \<Rightarrow> ''*'' | Some t \<Rightarrow> if t = [] then ''*'' else t)
               in Agg fn c (case alias0 of None \<Rightarrow> dflt | Some a \<Rightarrow> if a = [] then dflt else a))
          | None \<Rightarrow>
              Col expr (case alias0 of None \<Rightarrow> expr | Some a \<Rightarrow> if a = [] then expr else a)))"

definition parse_select_items :: "string \<Rightarrow> select_item list" where
  "parse_select_items clause = map parse_select_item (split_top_level_commas clause)"

text \<open>
  \<^verbatim>\<open>_compute_aggregate_over_rows\<close>. A column that is \<^verbatim>\<open>None\<close> (as in \<^verbatim>\<open>SUM()\<close>) is a key
  no record has.
\<close>

definition get_opt :: "row \<Rightarrow> string option \<Rightarrow> pyval" where
  "get_opt r c = (case c of None \<Rightarrow> VNone | Some k \<Rightarrow> row_get r k)"

definition compute_aggregate_over_rows :: "string \<Rightarrow> string option \<Rightarrow> row list \<Rightarrow> pyval" where
  "compute_aggregate_over_rows func0 c rows =
     (let fn = py_upper func0
      in if fn = ''COUNT''
         then (if c = None \<or> c = Some ''*'' then VInt (int (length rows))
               else VInt (int (length (filter (\<lambda>r. get_opt r c \<noteq> VNone) rows))))
         else (case filter is_num (map (\<lambda>r. get_opt r c) rows) of
                 [] \<Rightarrow> VNone
               | v # vs \<Rightarrow>
                   if fn = ''SUM'' then py_sum (v # vs)
                   else if fn = ''MIN'' then py_min v vs
                   else if fn = ''MAX'' then py_max v vs
                   else if fn = ''AVG'' then py_avg (v # vs)
                   else VNone))"

text \<open>\<^verbatim>\<open>group_dict.get("_rows", [])\<close>: the member rows of a group record.\<close>

fun dict_of :: "pyval \<Rightarrow> row" where
  "dict_of (VDict d) = d"
| "dict_of v = []"

definition group_rows :: "row \<Rightarrow> row list" where
  "group_rows gr = (case map_of gr ''_rows'' of Some (VList vs) \<Rightarrow> map dict_of vs | _ \<Rightarrow> [])"

definition compute_group_agg :: "row \<Rightarrow> string \<Rightarrow> string option \<Rightarrow> pyval" where
  "compute_group_agg gr fn c = compute_aggregate_over_rows fn c (group_rows gr)"

text \<open>The three projections at the end of \<^verbatim>\<open>run\<close>.\<close>

definition first_value :: "row list \<Rightarrow> string \<Rightarrow> pyval" where
  "first_value rows nm = (case rows of [] \<Rightarrow> VNone | r # rs \<Rightarrow> row_get r nm)"

fun group_item :: "row \<Rightarrow> row \<Rightarrow> select_item \<Rightarrow> row" where
  "group_item gr row_out (Agg fn c al) = AList.update al (compute_group_agg gr fn c) row_out"
| "group_item gr row_out (Col nm al) =
     AList.update al
       (case map_of gr nm of Some v \<Rightarrow> v | None \<Rightarrow> first_value (group_rows gr) nm) row_out"

fun single_item :: "row list \<Rightarrow> row \<Rightarrow> select_item \<Rightarrow> row" where
  "single_item rows single (Agg fn c al) =
     AList.update al (compute_aggregate_over_rows fn c rows) single"
| "single_item rows single (Col nm al) = AList.update al (first_value rows nm) single"

fun is_agg :: "select_item \<Rightarrow> bool" where
  "is_agg (Agg fn c al) = True"
| "is_agg (Col nm al) = False"

fun plain_item :: "row \<Rightarrow> row \<Rightarrow> select_item \<Rightarrow> row" where
  "plain_item r d (Col nm al) = AList.update al (row_get r nm) d"
| "plain_item r d (Agg fn c al) = d"

definition project :: "string \<Rightarrow> bool \<Rightarrow> row list \<Rightarrow> row list" where
  "project select_clause grouped rows =
     (if py_strip select_clause \<noteq> ''*''
      then (let select_items = parse_select_items select_clause
            in if grouped
               then map (\<lambda>gr. foldl (group_item gr) [] select_items) rows
               else if list_ex is_agg select_items
               then [foldl (single_item rows) [] select_items]
               else map (\<lambda>r. foldl (plain_item r) [] select_items) rows)
      else rows)"

text \<open>
  The registry of tables: the tables the loader attached to the database object, by
  name. \<^verbatim>\<open>hasattr(self.db, name)\<close> is the presence of the name in the registry.
\<close>

type_synonym registry = "(string \<times> row list) list"

fun apply_joins :: "registry \<Rightarrow> match_obj list \<Rightarrow> row list \<Rightarrow> error + row list" where
  "apply_joins db [] tbl = Inr tbl"
| "apply_joins db (m # ms) tbl =
     (let join_table = (case group m 1 of None \<Rightarrow> [] | Some g \<Rightarrow> g);
          join_key = (case group m 3 of None \<Rightarrow> [] | Some g \<Rightarrow> g)
      in case map_of db join_table of
           None \<Rightarrow> Inl (ValueError (''Unknown join table '' @ [squote] @ join_table @ [squote]))
         | Some jt \<Rightarrow> apply_joins db ms (join_rows tbl jt join_key))"

text \<open>A clause filter: \<^verbatim>\<open>if clause: table = self._apply_filter_expr(table, parse(clause))\<close>.\<close>

definition filter_clause :: "string option \<Rightarrow> row list \<Rightarrow> error + row list" where
  "filter_clause clause tbl =
     (case clause of
        None \<Rightarrow> Inr tbl
      | Some text \<Rightarrow>
          if text = [] then Inr tbl
          else (case parse_boolean_expression text of
                  Inl e \<Rightarrow> Inl e
                | Inr rpn \<Rightarrow> apply_filter_expr tbl rpn))"

definition group_clause_step :: "string option \<Rightarrow> row list \<Rightarrow> error + (row list \<times> bool)" where
  "group_clause_step clause tbl =
     (case clause of
        None \<Rightarrow> Inr (tbl, False)
      | Some text \<Rightarrow>
          if text = [] then Inr (tbl, False)
          else (case group_by_rows (map py_strip (split_on CHR '','' [] text)) tbl of
                  Inl e \<Rightarrow> Inl e
                | Inr grouped_rows \<Rightarrow> Inr (grouped_rows, True)))"

definition order_step :: "string \<Rightarrow> row list \<Rightarrow> row list" where
  "order_step s tbl =
     (case re_search order_re True s of
        None \<Rightarrow> tbl
      | Some m \<Rightarrow>
          (let c = (case group m 1 of None \<Rightarrow> [] | Some g \<Rightarrow> g);
               direction = (case group m 2 of None \<Rightarrow> ''asc'' | Some g \<Rightarrow> if g = [] then ''asc'' else g)
           in order_by_rows c (py_lower direction = ''desc'') tbl))"

definition limit_step :: "string \<Rightarrow> row list \<Rightarrow> row list" where
  "limit_step s tbl =
     (case re_search limit_re True s of
        None \<Rightarrow> tbl
      | Some m \<Rightarrow> limit_rows (int (digits_val (case group m 1 of None \<Rightarrow> [] | Some g \<Rightarrow> g))) tbl)"

text \<open>\<^verbatim>\<open>SQLParserAdvanced.run\<close>.\<close>

definition run :: "registry \<Rightarrow> string \<Rightarrow> error + row list" where
  "run db sql_text =
     (let s_clean = py_join '' '' (py_split (py_strip sql_text))
      in case re_search select_re True s_clean of
           None \<Rightarrow> Inl (ValueError ''Invalid SQL: missing SELECT ... FROM'')
         | Some m \<Rightarrow>
             (let select_clause = py_strip (case group m 1 of None \<Rightarrow> [] | Some g \<Rightarrow> g)
              in case re_search from_re True s_clean of
                   None \<Rightarrow> Inl (ValueError ''Invalid SQL: missing FROM table'')
                 | Some m_from \<Rightarrow>
                     (let from_table = (case group m_from 1 of None \<Rightarrow> [] | Some g \<Rightarrow> g)
                      in case map_of db from_table of
                           None \<Rightarrow> Inl (ValueError (''Unknown table '' @ [squote] @ from_table @ [squote]))
                         | Some tbl0 \<Rightarrow>
                             (case apply_joins db (re_findall join_re True s_clean) tbl0 of
                                Inl e \<Rightarrow> Inl e
                              | Inr tbl1 \<Rightarrow>
                             (case filter_clause (extract_between s_clean where_start where_stop) tbl1 of
                                Inl e \<Rightarrow> Inl e
                              | Inr tbl2 \<Rightarrow>
                             (case group_clause_step (extract_between s_clean group_start group_stop) tbl2 of
                                Inl e \<Rightarrow> Inl e
                              | Inr (tbl3, grouped) \<Rightarrow>
                             (case filter_clause (extract_between s_clean having_start having_stop) tbl3 of
                                Inl e \<Rightarrow> Inl e
                              | Inr tbl4 \<Rightarrow>
                                  Inr (project select_clause grouped
                                        (limit_step s_clean (order_step s_clean tbl4))))))))))"

section \<open>Properties of the relational operators\<close>

lemma py_eq_None: "py_eq v VNone = (v = VNone)"
  by (cases v) auto

text \<open>
  C1. The claim: \<^verbatim>\<open>having(P)\<close> returns the same rows as \<^verbatim>\<open>where(P)\<close> for every
  predicate list, in particular for \<^verbatim>\<open>contains\<close>, \<^verbatim>\<open>in\<close> and \<^verbatim>\<open>not in\<close>. The code of
  \<^verbatim>\<open>having\<close> has no branch for these three operators and rejects every row: on the one
  row \<^verbatim>\<open>{c: 1}\<close> the predicate \<^verbatim>\<open>("c", "in", [1])\<close> keeps the row under \<^verbatim>\<open>where\<close> and
  drops it under \<^verbatim>\<open>having\<close>.
\<close>

theorem having_differs_from_where_on_in:
  "where_rows [(''c'', ''in'', VList [VInt 1])] [[(''c'', VInt 1)]] = Inr [[(''c'', VInt 1)]]
   \<and> having_rows [(''c'', ''in'', VList [VInt 1])] [[(''c'', VInt 1)]] = Inr []"
  by (simp add: where_rows_def having_rows_def where_cond_def having_cond_def row_get_def)

text \<open>
  C2. The claim: an ordering predicate of \<^verbatim>\<open>where\<close> with a non-numeric operand is false
  and never raises. The code tests only the row's value with \<^verbatim>\<open>isinstance\<close>; a numeric
  row value against a text literal reaches \<^verbatim>\<open>v > val\<close>, which raises \<^verbatim>\<open>TypeError\<close>:
  \<^verbatim>\<open>where(("a", ">", "x"))\<close> over the one row \<^verbatim>\<open>{a: 1}\<close> returns no result.
\<close>

theorem where_numeric_against_text_raises:
  "where_rows [(''a'', ''>'', VStr ''x'')] [[(''a'', VInt 1)]] = Inl TypeError"
  by (simp add: where_rows_def where_cond_def row_get_def num_cmp_def is_num_def)

text \<open>
  C8, as stated: \<^verbatim>\<open>limit(n)\<close> is idempotent for every \<open>n\<close>. The slice \<^verbatim>\<open>rows[:n]\<close> with a
  negative \<open>n\<close> drops rows from the end, each time it is applied: \<^verbatim>\<open>limit(-1)\<close> twice over
  two rows leaves none, once leaves one.
\<close>

theorem limit_negative_not_idempotent:
  "limit_rows (- 1) (limit_rows (- 1) [[(''id'', VInt 1)], [(''id'', VInt 2)]])
   \<noteq> limit_rows (- 1) [[(''id'', VInt 1)], [(''id'', VInt 2)]]"
  by (simp add: limit_rows_def py_slice_to_def)

text \<open>
  C8, amended: for every \<open>n \<ge> 0\<close>, \<^verbatim>\<open>limit(n)\<close> applied twice equals \<^verbatim>\<open>limit(n)\<close> applied
  once; for every \<open>n\<close>, \<^verbatim>\<open>limit(n)\<close> yields no more records than its input, and leaves the
  records unchanged when \<open>n\<close> is at least the input length.
\<close>

theorem limit_idempotent_bounded:
  "(0 \<le> n \<longrightarrow> limit_rows n (limit_rows n rows) = limit_rows n rows)
   \<and> length (limit_rows n rows) \<le> length rows
   \<and> (int (length rows) \<le> n \<longrightarrow> limit_rows n rows = rows)"
  by (auto simp add: limit_rows_def py_slice_to_def)

theorem limit_idempotent_bounded_witness:
  "(0::int) \<le> 2
   \<and> int (length [[(''id'', VInt 1)], [(''id'', VInt 2)]]) \<le> 2
   \<and> limit_rows 2 (limit_rows 2 [[(''id'', VInt 1)], [(''id'', VInt 2)]])
       = limit_rows 2 [[(''id'', VInt 1)], [(''id'', VInt 2)]]
   \<and> length (limit_rows 2 [[(''id'', VInt 1)], [(''id'', VInt 2)]]) \<le> 2
   \<and> limit_rows 2 [[(''id'', VInt 1)], [(''id'', VInt 2)]]
       = [[(''id'', VInt 1)], [(''id'', VInt 2)]]"
  using limit_idempotent_bounded [of 2 "[[(''id'', VInt 1)], [(''id'', VInt 2)]]"]
  by simp

text \<open>
  C9. In \<^verbatim>\<open>join(other, key)\<close> a left row whose key column is absent or null is matched
  with exactly the right rows whose key column is absent or null, and contributes one
  merged row for each of them, in the order of the right table.
\<close>

theorem join_null_key_matches_null:
  "row_get l on = VNone \<Longrightarrow>
   join_rows (before @ l # after) other on =
     join_rows before other on
     @ map (dict_update l) (filter (\<lambda>r. row_get r on = VNone) other)
     @ join_rows after other on"
  by (simp add: join_rows_def py_eq_None)

theorem join_null_key_matches_null_witness:
  "row_get [(''name'', VStr ''a'')] ''k'' = VNone
   \<and> join_rows ([] @ [(''name'', VStr ''a'')] # [])
        [[(''k'', VNone), (''x'', VInt 1)], [(''k'', VInt 3)], [(''y'', VInt 2)]] ''k''
      = [[(''name'', VStr ''a''), (''k'', VNone), (''x'', VInt 1)],
         [(''name'', VStr ''a''), (''y'', VInt 2)]]"
  using join_null_key_matches_null
    [of "[(''name'', VStr ''a'')]" "''k''" "[]" "[]"
        "[[(''k'', VNone), (''x'', VInt 1)], [(''k'', VInt 3)], [(''y'', VInt 2)]]"]
  by (simp add: row_get_def join_rows_def dict_update_def)

section \<open>Properties of the expression machinery\<close>

text \<open>
  C3. The claim: \<^verbatim>\<open>c NOT IN (L)\<close>, compiled and evaluated, is true exactly when the
  record's value for \<open>c\<close> is no member of \<open>L\<close>, and evaluation never raises. The
  compiler never forms the operator \<^verbatim>\<open>NOT IN\<close>: it pushes \<^verbatim>\<open>NOT\<close>, and the \<^verbatim>\<open>IN\<close> that
  follows pops it to the output first, so that the postfix form is
  \<^verbatim>\<open>c, [1, 2], NOT, IN\<close>. The evaluator negates the list and then tests membership in a
  boolean, which raises \<^verbatim>\<open>TypeError\<close>: on the record \<^verbatim>\<open>{c: 3}\<close> the filter raises, where
  the claim gives true.
\<close>

theorem not_in_raises_at_evaluation:
  "parse_boolean_expression ''c NOT IN (1, 2)''
     = Inr [IDENT ''c'', LITERAL (VList [VInt 1, VInt 2]), OP ''NOT'', OP ''IN'']
   \<and> eval_row [IDENT ''c'', LITERAL (VList [VInt 1, VInt 2]), OP ''NOT'', OP ''IN'']
        [(''c'', VInt 3)] = Inl TypeError
   \<and> apply_filter_expr [[(''c'', VInt 3)]]
        [IDENT ''c'', LITERAL (VList [VInt 1, VInt 2]), OP ''NOT'', OP ''IN''] = Inl TypeError"
  by code_simp

text \<open>
  C4. The claim: every token sequence with mismatched parentheses, an \<^verbatim>\<open>IN\<close> list
  without its closing parenthesis included, makes the compilation raise. The loop that
  reads an \<^verbatim>\<open>IN\<close> list ends without a check when the tokens run out: \<^verbatim>\<open>c IN (1, 2\<close>
  compiles to the postfix form \<^verbatim>\<open>c, [1], IN\<close>, and the last element is lost.
\<close>

theorem unclosed_in_list_compiles:
  "parse_boolean_expression ''c IN (1, 2''
     = Inr [IDENT ''c'', LITERAL (VList [VInt 1]), OP ''IN'']
   \<and> to_rpn [IDENT ''c'', OP ''IN'', LPAREN, LITERAL (VInt 1), COMMA, LITERAL (VInt 2)]
     = Inr [IDENT ''c'', LITERAL (VList [VInt 1]), OP ''IN'']"
  by code_simp

lemma read_quoted_unclosed:
  "(\<forall>j<length cs. cs ! j = q \<longrightarrow> (prev # cs) ! j = backslash)
   \<Longrightarrow> read_quoted q prev cs buf = (buf @ cs, [])"
proof (induction cs arbitrary: prev buf)
  case Nil
  then show ?case by simp
next
  case (Cons c cs)
  from Cons.prems have first: "c = q \<longrightarrow> prev = backslash" by auto
  have later: "\<forall>j<length cs. cs ! j = q \<longrightarrow> (c # cs) ! j = backslash"
  proof (intro allI impI)
    fix j assume "j < length cs" and "cs ! j = q"
    with Cons.prems have "(prev # c # cs) ! Suc j = backslash"
      by (metis Suc_less_eq length_Cons nth_Cons_Suc)
    then show "(c # cs) ! j = backslash" by simp
  qed
  from Cons.IH [OF later] first show ?case by auto
qed

text \<open>
  C10. When the tokenizer stands at a quote character and no later occurrence of that
  quote is unescaped (each one is preceded by a backslash), it raises nothing: the whole
  remainder of the text after the quote becomes one text literal, and the tokenizer
  returns the tokens read so far followed by that literal.
\<close>

theorem unterminated_quote_is_literal:
  assumes q: "q = squote \<or> q = dquote"
    and unclosed: "\<forall>j<length rest. rest ! j = q \<longrightarrow> (q # rest) ! j = backslash"
  shows "tokenize_from n (q # rest) tokens = Inr (tokens @ [LITERAL (VStr rest)])"
proof -
  have rq: "read_quoted q q rest [] = (rest, [])"
    using read_quoted_unclosed [OF unclosed, of "[]"] by simp
  from q show ?thesis
  proof
    assume "q = squote"
    with rq show ?thesis
      by (simp add: squote_def dquote_def py_isspace_def kw_at_def py_lower_def py_lower_char_def)
  next
    assume "q = dquote"
    with rq show ?thesis
      by (simp add: squote_def dquote_def py_isspace_def kw_at_def py_lower_def py_lower_char_def)
  qed
qed

theorem unterminated_quote_is_literal_witness:
  "(squote = squote \<or> squote = dquote)
   \<and> [CHR ''a'', backslash, squote, CHR ''b''] ! 0 \<noteq> squote
   \<and> [CHR ''a'', backslash, squote, CHR ''b''] ! 1 \<noteq> squote
   \<and> (squote # [CHR ''a'', backslash, squote, CHR ''b'']) ! 2 = backslash
   \<and> [CHR ''a'', backslash, squote, CHR ''b''] ! 3 \<noteq> squote
   \<and> tokenize_from 11 (squote # [CHR ''a'', backslash, squote, CHR ''b''])
        [IDENT ''name'', OP ''='']
       = Inr [IDENT ''name'', OP ''='', LITERAL (VStr [CHR ''a'', backslash, squote, CHR ''b''])]
   \<and> tokenize_expr (''name = '' @ squote # [CHR ''a'', backslash, squote, CHR ''b''])
       = Inr [IDENT ''name'', OP ''='', LITERAL (VStr [CHR ''a'', backslash, squote, CHR ''b''])]"
proof -
  have h: "\<forall>j<length [CHR ''a'', backslash, squote, CHR ''b''].
         [CHR ''a'', backslash, squote, CHR ''b''] ! j = squote
         \<longrightarrow> (squote # [CHR ''a'', backslash, squote, CHR ''b'']) ! j = backslash"
    by (simp add: All_less_Suc squote_def backslash_def)
  have e: "tokenize_expr (''name = '' @ squote # [CHR ''a'', backslash, squote, CHR ''b''])
       = Inr [IDENT ''name'', OP ''='', LITERAL (VStr [CHR ''a'', backslash, squote, CHR ''b''])]"
    by code_simp
  from unterminated_quote_is_literal [of squote "[CHR ''a'', backslash, squote, CHR ''b'']" 11
        "[IDENT ''name'', OP ''='']", OF _ h] e
  show ?thesis by (simp add: squote_def backslash_def)
qed

section \<open>Precedence of AND over OR\<close>


lemma prec_le_5: "prec v \<le> 5"
  by (simp add: prec_def)

lemma pop_ops_never: "(\<And>q. q \<le> 5 \<Longrightarrow> \<not> c q) \<Longrightarrow> pop_ops c out st = (out, st)"
  by (cases "(c, out, st)" rule: pop_ops.cases) (auto simp: prec_le_5)

lemma pop_ops_not: "pop_ops (\<lambda>q. prec ''NOT'' < q) out st = (out, st)"
  by (rule pop_ops_never) (simp add: prec_def)

lemma pop_ops_ctx: "ctx_ok st \<Longrightarrow> pop_ops (\<lambda>q. 4 \<le> q) out st = (out, st)"
  by (cases st rule: ctx_ok.cases) auto

lemma bottom_ctx: "bottom_ok st \<Longrightarrow> ctx_ok st"
  by (cases st rule: bottom_ok.cases) auto

lemma pop_ops_bottom: "bottom_ok st \<Longrightarrow> pop_ops c out st = (out, st)"
  by (cases st rule: bottom_ok.cases) auto

lemma pop_ops_tight_all:
  "list_all tight p \<Longrightarrow> (\<And>q. 4 \<le> q \<Longrightarrow> c q) \<Longrightarrow> pop_ops c out (p @ st) = pop_ops c (out @ p) st"
proof (induction p arbitrary: out)
  case Nil
  then show ?case by simp
next
  case (Cons t p)
  then show ?case by (cases t) auto
qed

lemma pop_to_lparen_ops:
  "list_all is_op_tok p \<Longrightarrow> pop_to_lparen out (p @ LPAREN # st) = (out @ p, LPAREN # st)"
proof (induction p arbitrary: out)
  case Nil
  then show ?case by simp
next
  case (Cons t p)
  then show ?case by (cases t) auto
qed

lemma tight_is_op: "list_all tight p \<Longrightarrow> list_all is_op_tok p"
  by (induction p) (auto elim: tight.elims)

lemma pop_ops_not5: "pop_ops (\<lambda>q. 5 < q) out st = (out, st)"
  by (rule pop_ops_never) simp

lemma rpn_and_or:
  "v = ''AND'' \<or> v = ''OR'' \<Longrightarrow> rpn_loop (OP v # ts) out st =
     (case pop_ops (\<lambda>q. prec v \<le> q) out st of (out', st') \<Rightarrow> rpn_loop ts out' (OP v # st'))"
  by (auto simp: py_upper_def py_upper_char_def)

lemma rpn_atom: "is_atom a \<Longrightarrow> rpn_loop (a # ts) out st = rpn_loop ts (out @ [a]) st"
  by (cases a) auto

lemma cmp_op_facts: "cmp_op v \<Longrightarrow> v \<noteq> ''NOT'' \<and> py_upper v \<noteq> ''IN'' \<and> prec v = 4"
  by (auto simp: cmp_op_def prec_def py_upper_def py_upper_char_def)

lemma rpn_cmp_op:
  "cmp_op v \<Longrightarrow> rpn_loop (OP v # ts) out st =
     (case pop_ops (\<lambda>q. 4 \<le> q) out st of (out', st') \<Rightarrow> rpn_loop ts out' (OP v # st'))"
  using cmp_op_facts [of v] by simp

lemma rpn_not: "rpn_loop (OP ''NOT'' # ts) out st = rpn_loop ts out (OP ''NOT'' # st)"
  by (simp add: pop_ops_not)

lemma read_in_list_items:
  "list_all is_atom items \<Longrightarrow>
   read_in_list (comma_sep items @ RPAREN # ys) vals [] = Inr (vals @ map tvalue items, ys)"
proof (induction items arbitrary: vals rule: comma_sep.induct)
  case 1
  then show ?case by simp
next
  case (2 t)
  then show ?case by (cases t) (auto simp: list_item_def)
next
  case (3 t u ts)
  from "3.prems" have "list_all is_atom (u # ts)" by simp
  from "3.IH" [OF this, of "vals @ [tvalue t]"] "3.prems" show ?case
    by (cases t) (auto simp: list_item_def)
qed

lemma rpn_in:
  assumes "list_all is_atom items" "coerce_items (map tvalue items) = Inr ws"
  shows "rpn_loop (OP ''IN'' # LPAREN # comma_sep items @ RPAREN # ys) out st =
     (case pop_ops (\<lambda>q. 4 \<le> q) (out @ [LITERAL (VList ws)]) st of
        (out', st') \<Rightarrow> rpn_loop ys out' (OP ''IN'' # st'))"
proof -
  have up: "py_upper ''IN'' = ''IN''" by (simp add: py_upper_def py_upper_char_def)
  have p4: "prec ''IN'' = 4" by (simp add: prec_def)
  show ?thesis
    using assms read_in_list_items [OF assms(1), of ys "[]"]
    by (simp add: up p4)
qed



declare rpn_loop.simps(4) [simp del]

lemma sem_operandI:
  assumes "list_all tight p"
    and "\<And>ys out st. ctx_ok st \<Longrightarrow> rpn_loop (x @ ys) out st = rpn_loop ys (out @ r) (p @ st)"
  shows "sem_operand x"
  unfolding sem_operand_def using assms by blast

lemma sem_bexprI:
  assumes "list_all is_op_tok p"
    and "\<And>ys out st. bottom_ok st \<Longrightarrow> rpn_loop (e @ ys) out st = rpn_loop ys (out @ r) (p @ st)"
  shows "sem_bexpr e"
  unfolding sem_bexpr_def using assms by blast

lemma sem_atom: "is_atom a \<Longrightarrow> sem_operand [a]"
  by (rule sem_operandI [where p = "[]" and r = "[a]"]) (simp_all add: rpn_atom)

lemma sem_not_atom: "is_atom a \<Longrightarrow> sem_operand [OP ''NOT'', a]"
  by (rule sem_operandI [where p = "[OP ''NOT'']" and r = "[a]"])
     (simp_all add: rpn_atom rpn_not prec_def)

lemma sem_cmp:
  assumes "is_atom a" "cmp_op opr" "is_atom b"
  shows "sem_operand [a, OP opr, b]"
proof (rule sem_operandI [where p = "[OP opr]" and r = "[a, b]"])
  show "list_all tight [OP opr]" using cmp_op_facts [OF assms(2)] by simp
next
  fix ys out st assume "ctx_ok st"
  then show "rpn_loop ([a, OP opr, b] @ ys) out st = rpn_loop ys (out @ [a, b]) ([OP opr] @ st)"
    using assms by (simp add: rpn_atom rpn_cmp_op pop_ops_ctx)
qed

lemma sem_not_cmp:
  assumes "is_atom a" "cmp_op opr" "is_atom b"
  shows "sem_operand [OP ''NOT'', a, OP opr, b]"
proof (rule sem_operandI [where p = "[OP opr]" and r = "[a, OP ''NOT'', b]"])
  show "list_all tight [OP opr]" using cmp_op_facts [OF assms(2)] by simp
next
  fix ys out st assume "ctx_ok st"
  then show "rpn_loop ([OP ''NOT'', a, OP opr, b] @ ys) out st
             = rpn_loop ys (out @ [a, OP ''NOT'', b]) ([OP opr] @ st)"
    using assms by (simp add: rpn_atom rpn_cmp_op rpn_not pop_ops_ctx prec_def)
qed

lemma sem_in_list:
  assumes "is_atom a" "list_all is_atom items" "coerce_items (map tvalue items) = Inr ws"
  shows "sem_operand ([a, OP ''IN'', LPAREN] @ comma_sep items @ [RPAREN])"
proof (rule sem_operandI [where p = "[OP ''IN'']" and r = "[a, LITERAL (VList ws)]"])
  show "list_all tight [OP ''IN'']" by (simp add: prec_def)
next
  fix ys out st assume "ctx_ok st"
  then show "rpn_loop (([a, OP ''IN'', LPAREN] @ comma_sep items @ [RPAREN]) @ ys) out st
             = rpn_loop ys (out @ [a, LITERAL (VList ws)]) ([OP ''IN''] @ st)"
    using assms(1) rpn_in [OF assms(2,3)] by (simp add: rpn_atom pop_ops_ctx)
qed

lemma sem_not_in_list:
  assumes "is_atom a" "list_all is_atom items" "coerce_items (map tvalue items) = Inr ws"
  shows "sem_operand ([a, OP ''NOT'', OP ''IN'', LPAREN] @ comma_sep items @ [RPAREN])"
proof (rule sem_operandI [where p = "[OP ''IN'']" and r = "[a, LITERAL (VList ws), OP ''NOT'']"])
  show "list_all tight [OP ''IN'']" by (simp add: prec_def)
next
  fix ys out st assume "ctx_ok st"
  then show "rpn_loop (([a, OP ''NOT'', OP ''IN'', LPAREN] @ comma_sep items @ [RPAREN]) @ ys) out st
             = rpn_loop ys (out @ [a, LITERAL (VList ws), OP ''NOT'']) ([OP ''IN''] @ st)"
    using assms(1) rpn_in [OF assms(2,3)]
    by (simp add: rpn_atom rpn_not pop_ops_ctx prec_def)
qed

lemma sem_paren:
  assumes "sem_bexpr e"
  shows "sem_operand (LPAREN # e @ [RPAREN])"
proof -
  from assms obtain r p where p: "list_all is_op_tok p"
    and run: "\<And>ys out st. bottom_ok st \<Longrightarrow> rpn_loop (e @ ys) out st = rpn_loop ys (out @ r) (p @ st)"
    unfolding sem_bexpr_def by blast
  show ?thesis
  proof (rule sem_operandI [where p = "[]" and r = "r @ p"])
    show "list_all tight []" by simp
  next
    fix ys out st
    have "rpn_loop ((LPAREN # e @ [RPAREN]) @ ys) out st = rpn_loop (e @ RPAREN # ys) out (LPAREN # st)"
      by simp
    also have "\<dots> = rpn_loop (RPAREN # ys) (out @ r) (p @ LPAREN # st)"
      by (rule run) simp
    also have "\<dots> = rpn_loop ys (out @ r @ p) st"
      by (simp add: pop_to_lparen_ops [OF p])
    finally show "rpn_loop ((LPAREN # e @ [RPAREN]) @ ys) out st = rpn_loop ys (out @ r @ p) ([] @ st)"
      by simp
  qed
qed

lemma sem_not_paren:
  assumes "sem_bexpr e"
  shows "sem_operand (OP ''NOT'' # LPAREN # e @ [RPAREN])"
proof -
  from assms obtain r p where p: "list_all is_op_tok p"
    and run: "\<And>ys out st. bottom_ok st \<Longrightarrow> rpn_loop (e @ ys) out st = rpn_loop ys (out @ r) (p @ st)"
    unfolding sem_bexpr_def by blast
  show ?thesis
  proof (rule sem_operandI [where p = "[OP ''NOT'']" and r = "r @ p"])
    show "list_all tight [OP ''NOT'']" by (simp add: prec_def)
  next
    fix ys out st
    have "rpn_loop ((OP ''NOT'' # LPAREN # e @ [RPAREN]) @ ys) out st
          = rpn_loop (e @ RPAREN # ys) out (LPAREN # OP ''NOT'' # st)"
      by (simp add: rpn_not)
    also have "\<dots> = rpn_loop (RPAREN # ys) (out @ r) (p @ LPAREN # OP ''NOT'' # st)"
      by (rule run) simp
    also have "\<dots> = rpn_loop ys (out @ r @ p) (OP ''NOT'' # st)"
      by (simp add: pop_to_lparen_ops [OF p])
    finally show "rpn_loop ((OP ''NOT'' # LPAREN # e @ [RPAREN]) @ ys) out st
                  = rpn_loop ys (out @ r @ p) ([OP ''NOT''] @ st)"
      by simp
  qed
qed

lemma sem_single: "sem_operand x \<Longrightarrow> sem_bexpr x"
  unfolding sem_operand_def sem_bexpr_def
  by (meson bottom_ctx tight_is_op)

lemma pop_ops_pending:
  assumes "list_all is_op_tok p"
  shows "\<exists>q p'. list_all is_op_tok p' \<and>
      (\<forall>out st. bottom_ok st \<longrightarrow> pop_ops c out (p @ st) = (out @ q, p' @ st))"
  using assms
proof (induction p)
  case Nil
  have "list_all is_op_tok [] \<and>
      (\<forall>out st. bottom_ok st \<longrightarrow> pop_ops c out ([] @ st) = (out @ [], [] @ st))"
    by (simp add: pop_ops_bottom)
  then show ?case by blast
next
  case (Cons t p)
  then obtain w where t: "t = OP w" by (cases t) auto
  from Cons obtain q p' where ih: "list_all is_op_tok p'"
    "\<And>out st. bottom_ok st \<Longrightarrow> pop_ops c out (p @ st) = (out @ q, p' @ st)"
    by auto
  show ?case
  proof (cases "c (prec w)")
    case True
    with t ih have "\<forall>out st. bottom_ok st \<longrightarrow>
        pop_ops c out ((t # p) @ st) = (out @ (OP w # q), p' @ st)"
      by simp
    with ih(1) show ?thesis by blast
  next
    case False
    with t have "\<forall>out st. bottom_ok st \<longrightarrow>
        pop_ops c out ((t # p) @ st) = (out @ [], (t # p) @ st)"
      by simp
    with Cons.prems show ?thesis by blast
  qed
qed

lemma sem_binary:
  assumes e: "sem_bexpr e" and x: "sem_operand x" and v: "v = ''AND'' \<or> v = ''OR''"
  shows "sem_bexpr (e @ OP v # x)"
proof -
  from e obtain r p where p: "list_all is_op_tok p"
    and run_e: "\<And>ys out st. bottom_ok st \<Longrightarrow> rpn_loop (e @ ys) out st = rpn_loop ys (out @ r) (p @ st)"
    unfolding sem_bexpr_def by blast
  from x obtain rx px where px: "list_all tight px"
    and run_x: "\<And>ys out st. ctx_ok st \<Longrightarrow> rpn_loop (x @ ys) out st = rpn_loop ys (out @ rx) (px @ st)"
    unfolding sem_operand_def by blast
  have pv: "prec v < 4" using v by (auto simp: prec_def)
  from pop_ops_pending [OF p, of "\<lambda>k. prec v \<le> k"] obtain q p' where p': "list_all is_op_tok p'"
    and pop: "\<And>out st. bottom_ok st \<Longrightarrow> pop_ops (\<lambda>k. prec v \<le> k) out (p @ st) = (out @ q, p' @ st)"
    by blast
  show ?thesis
  proof (rule sem_bexprI [where p = "px @ OP v # p'" and r = "r @ q @ rx"])
    show "list_all is_op_tok (px @ OP v # p')" using p' tight_is_op [OF px] by simp
  next
    fix ys out st assume b: "bottom_ok st"
    have "rpn_loop ((e @ OP v # x) @ ys) out st = rpn_loop (e @ OP v # x @ ys) out st" by simp
    also have "\<dots> = rpn_loop (OP v # x @ ys) (out @ r) (p @ st)" by (rule run_e [OF b])
    also have "\<dots> = rpn_loop (x @ ys) (out @ r @ q) (OP v # p' @ st)"
      by (simp add: rpn_and_or [OF v] pop [OF b])
    also have "\<dots> = rpn_loop ys (out @ r @ q @ rx) (px @ OP v # p' @ st)"
      using run_x [of "OP v # p' @ st" ys "out @ r @ q"] pv by simp
    finally show "rpn_loop ((e @ OP v # x) @ ys) out st
                  = rpn_loop ys (out @ (r @ q @ rx)) ((px @ OP v # p') @ st)"
      by simp
  qed
qed

lemma operand_bexpr_sem: "(operand x \<longrightarrow> sem_operand x) \<and> (bexpr e \<longrightarrow> sem_bexpr e)"
proof (induction rule: operand_bexpr.induct)
  case (atom a) then show ?case by (rule sem_atom)
next
  case (not_atom a) then show ?case by (rule sem_not_atom)
next
  case (cmp a opr b) then show ?case by (rule sem_cmp)
next
  case (not_cmp a opr b) then show ?case by (rule sem_not_cmp)
next
  case (in_list a items ws) then show ?case by (rule sem_in_list)
next
  case (not_in_list a items ws) then show ?case by (rule sem_not_in_list)
next
  case (paren e) then show ?case by (simp add: sem_paren)
next
  case (not_paren e) then show ?case by (simp add: sem_not_paren)
next
  case (single x) then show ?case by (simp add: sem_single)
next
  case (conj e x) then show ?case by (simp add: sem_binary)
next
  case (disj e x) then show ?case by (simp add: sem_binary)
qed


lemma drain_ops: "list_all is_op_tok p \<Longrightarrow> drain out p = Inr (out @ p)"
proof (induction p arbitrary: out)
  case Nil
  then show ?case by simp
next
  case (Cons t p)
  then show ?case by (cases t) auto
qed

lemma or_and_rpn:
  assumes "operand A" "operand B" "operand C"
  shows "\<exists>rpn. to_rpn (A @ OP ''OR'' # B @ OP ''AND'' # C) = Inr rpn
            \<and> to_rpn (A @ OP ''OR'' # LPAREN # B @ OP ''AND'' # C @ [RPAREN]) = Inr rpn"
proof -
  from assms operand_bexpr_sem have "sem_operand A" "sem_operand B" "sem_operand C" by blast+
  then obtain ra pa rb pb rc pc where
    pa: "list_all tight pa" and pb: "list_all tight pb" and pc: "list_all tight pc"
    and run_a: "\<And>ys out st. ctx_ok st \<Longrightarrow> rpn_loop (A @ ys) out st = rpn_loop ys (out @ ra) (pa @ st)"
    and run_b: "\<And>ys out st. ctx_ok st \<Longrightarrow> rpn_loop (B @ ys) out st = rpn_loop ys (out @ rb) (pb @ st)"
    and run_c: "\<And>ys out st. ctx_ok st \<Longrightarrow> rpn_loop (C @ ys) out st = rpn_loop ys (out @ rc) (pc @ st)"
    unfolding sem_operand_def by blast
  have por: "prec ''OR'' = 1" and pand: "prec ''AND'' = 2" by (simp_all add: prec_def)
  have pop_or: "pop_ops (\<lambda>q. prec ''OR'' \<le> q) out pa = (out @ pa, [])" for out
    using pop_ops_tight_all [OF pa, of "\<lambda>q. prec ''OR'' \<le> q" out "[]"] by (simp add: por)
  have pop_and: "pop_ops (\<lambda>q. prec ''AND'' \<le> q) out (pb @ st) = (out @ pb, st)"
    if "st = [OP ''OR''] \<or> st = [LPAREN, OP ''OR'']" for out st
    using pop_ops_tight_all [OF pb, of "\<lambda>q. prec ''AND'' \<le> q" out st] that
    by (auto simp: por pand)
  have start: "rpn_loop (A @ OP ''OR'' # ys) [] [] = rpn_loop ys (ra @ pa) [OP ''OR'']" for ys
  proof -
    have "rpn_loop (A @ OP ''OR'' # ys) [] [] = rpn_loop (OP ''OR'' # ys) ra pa"
      using run_a [of "[]" "OP ''OR'' # ys" "[]"] by simp
    also have "\<dots> = rpn_loop ys (ra @ pa) [OP ''OR'']"
      by (simp add: rpn_and_or pop_or)
    finally show ?thesis .
  qed
  have plain: "rpn_loop (A @ OP ''OR'' # B @ OP ''AND'' # C) [] []
               = Inr (ra @ pa @ rb @ pb @ rc, pc @ [OP ''AND'', OP ''OR''])"
  proof -
    have "rpn_loop (A @ OP ''OR'' # B @ OP ''AND'' # C) [] []
          = rpn_loop (B @ OP ''AND'' # C) (ra @ pa) [OP ''OR'']"
      by (rule start)
    also have "\<dots> = rpn_loop (OP ''AND'' # C) (ra @ pa @ rb) (pb @ [OP ''OR''])"
      using run_b [of "[OP ''OR'']" "OP ''AND'' # C" "ra @ pa"] by (simp add: por)
    also have "\<dots> = rpn_loop (C @ []) (ra @ pa @ rb @ pb) [OP ''AND'', OP ''OR'']"
      by (simp add: rpn_and_or pop_and)
    also have "\<dots> = rpn_loop [] (ra @ pa @ rb @ pb @ rc) (pc @ [OP ''AND'', OP ''OR''])"
      using run_c [of "[OP ''AND'', OP ''OR'']" "[]" "ra @ pa @ rb @ pb"] by (simp add: pand)
    finally show ?thesis by simp
  qed
  have paren: "rpn_loop (A @ OP ''OR'' # LPAREN # B @ OP ''AND'' # C @ [RPAREN]) [] []
               = Inr (ra @ pa @ rb @ pb @ rc @ pc @ [OP ''AND''], [OP ''OR''])"
  proof -
    have "rpn_loop (A @ OP ''OR'' # LPAREN # B @ OP ''AND'' # C @ [RPAREN]) [] []
          = rpn_loop (LPAREN # B @ OP ''AND'' # C @ [RPAREN]) (ra @ pa) [OP ''OR'']"
      by (rule start)
    also have "\<dots> = rpn_loop (B @ OP ''AND'' # C @ [RPAREN]) (ra @ pa) [LPAREN, OP ''OR'']"
      by simp
    also have "\<dots> = rpn_loop (OP ''AND'' # C @ [RPAREN]) (ra @ pa @ rb) (pb @ [LPAREN, OP ''OR''])"
      using run_b [of "[LPAREN, OP ''OR'']" "OP ''AND'' # C @ [RPAREN]" "ra @ pa"] by simp
    also have "\<dots> = rpn_loop (C @ [RPAREN]) (ra @ pa @ rb @ pb) [OP ''AND'', LPAREN, OP ''OR'']"
      by (simp add: rpn_and_or pop_and)
    also have "\<dots> = rpn_loop [RPAREN] (ra @ pa @ rb @ pb @ rc) (pc @ [OP ''AND'', LPAREN, OP ''OR''])"
      using run_c [of "[OP ''AND'', LPAREN, OP ''OR'']" "[RPAREN]" "ra @ pa @ rb @ pb"]
      by (simp add: pand)
    also have "\<dots> = Inr (ra @ pa @ rb @ pb @ rc @ pc @ [OP ''AND''], [OP ''OR''])"
      using pop_to_lparen_ops [of "pc @ [OP ''AND'']" "ra @ pa @ rb @ pb @ rc" "[OP ''OR'']"]
        tight_is_op [OF pc]
      by simp
    finally show ?thesis .
  qed
  have d1: "drain (ra @ pa @ rb @ pb @ rc) (pc @ [OP ''AND'', OP ''OR''])
            = Inr ((ra @ pa @ rb @ pb @ rc) @ pc @ [OP ''AND'', OP ''OR''])"
    by (rule drain_ops) (use tight_is_op [OF pc] in simp)
  have "to_rpn (A @ OP ''OR'' # B @ OP ''AND'' # C)
        = Inr (map upper_op (ra @ pa @ rb @ pb @ rc @ pc @ [OP ''AND'', OP ''OR'']))"
    unfolding to_rpn_def plain using d1 by simp
  moreover have "to_rpn (A @ OP ''OR'' # LPAREN # B @ OP ''AND'' # C @ [RPAREN])
        = Inr (map upper_op (ra @ pa @ rb @ pb @ rc @ pc @ [OP ''AND'', OP ''OR'']))"
    unfolding to_rpn_def paren by simp
  ultimately show ?thesis by simp
qed

text \<open>
  C5. For all operands \<open>A\<close>, \<open>B\<close>, \<open>C\<close> and every record, the expression \<^verbatim>\<open>A OR B AND C\<close>
  compiles, and compiled and evaluated it yields the same result as \<^verbatim>\<open>A OR (B AND C)\<close>:
  both have the same postfix form, in which \<^verbatim>\<open>AND\<close> is applied to \<open>B\<close> and \<open>C\<close> before
  \<^verbatim>\<open>OR\<close>.
\<close>

theorem or_binds_looser_than_and:
  assumes "operand A" "operand B" "operand C"
  shows "(\<exists>rpn. to_rpn (A @ OP ''OR'' # B @ OP ''AND'' # C) = Inr rpn)
         \<and> eval_tokens (A @ OP ''OR'' # B @ OP ''AND'' # C) r
           = eval_tokens (A @ OP ''OR'' # LPAREN # B @ OP ''AND'' # C @ [RPAREN]) r"
  using or_and_rpn [OF assms] by (auto simp: eval_tokens_def)

theorem or_binds_looser_than_and_witness:
  "operand [IDENT ''a'', OP ''='', LITERAL (VInt 1)]
   \<and> operand [IDENT ''b'', OP ''>'', LITERAL (VInt 2)]
   \<and> operand [IDENT ''c'', OP ''CONTAINS'', LITERAL (VStr ''x'')]
   \<and> eval_tokens ([IDENT ''a'', OP ''='', LITERAL (VInt 1)] @ OP ''OR''
         # [IDENT ''b'', OP ''>'', LITERAL (VInt 2)] @ OP ''AND''
         # [IDENT ''c'', OP ''CONTAINS'', LITERAL (VStr ''x'')])
        [(''a'', VInt 1), (''b'', VInt 0), (''c'', VStr ''z'')] = Inr True
   \<and> eval_tokens ([IDENT ''a'', OP ''='', LITERAL (VInt 1)] @ OP ''OR'' # LPAREN
         # [IDENT ''b'', OP ''>'', LITERAL (VInt 2)] @ OP ''AND''
         # [IDENT ''c'', OP ''CONTAINS'', LITERAL (VStr ''x'')] @ [RPAREN])
        [(''a'', VInt 1), (''b'', VInt 0), (''c'', VStr ''z'')] = Inr True"
proof -
  have a: "operand [IDENT ''a'', OP ''='', LITERAL (VInt 1)]"
    by (rule operand_bexpr.cmp) (simp_all add: cmp_op_def)
  have b: "operand [IDENT ''b'', OP ''>'', LITERAL (VInt 2)]"
    by (rule operand_bexpr.cmp) (simp_all add: cmp_op_def)
  have c: "operand [IDENT ''c'', OP ''CONTAINS'', LITERAL (VStr ''x'')]"
    by (rule operand_bexpr.cmp) (simp_all add: cmp_op_def)
  have v: "eval_tokens ([IDENT ''a'', OP ''='', LITERAL (VInt 1)] @ OP ''OR''
         # [IDENT ''b'', OP ''>'', LITERAL (VInt 2)] @ OP ''AND''
         # [IDENT ''c'', OP ''CONTAINS'', LITERAL (VStr ''x'')])
        [(''a'', VInt 1), (''b'', VInt 0), (''c'', VStr ''z'')] = Inr True"
    by code_simp
  from or_binds_looser_than_and [OF a b c, of "[(''a'', VInt 1), (''b'', VInt 0), (''c'', VStr ''z'')]"]
    a b c v
  show ?thesis by simp
qed

section \<open>Allocation and mutation by the relational operators\<close>

lemma fresh_new_table: "fresh_over h (new_table h rows)"
  by (simp add: fresh_over_def new_table_def alloc_def unchanged_def obj_at_def nth_append)

lemma unchanged_refl: "unchanged h h"
  by (simp add: unchanged_def)

lemma unchanged_trans: "unchanged h h1 \<Longrightarrow> unchanged h1 h2 \<Longrightarrow> unchanged h h2"
proof -
  assume a: "unchanged h h1" and b: "unchanged h1 h2"
  from a have l1: "length h \<le> length h1" and t1: "take (length h) h1 = h"
    by (simp_all add: unchanged_def)
  from b have l2: "length h1 \<le> length h2" and t2: "take (length h1) h2 = h1"
    by (simp_all add: unchanged_def)
  have "take (length h) (take (length h1) h2) = take (length h) h2"
    using l1 by (simp add: min_def)
  with t1 t2 have "take (length h) h2 = h" by simp
  with l1 l2 show ?thesis by (simp add: unchanged_def)
qed

lemma fresh_over_unchanged: "fresh_over h res \<Longrightarrow> unchanged h (fst res)"
  by (cases res) (simp add: fresh_over_def)


lemma fresh_over_mono: "unchanged h h1 \<Longrightarrow> fresh_over h1 res \<Longrightarrow> fresh_over h res"
proof -
  assume u: "unchanged h h1" and f: "fresh_over h1 res"
  obtain h2 t where res: "res = (h2, t)" by (cases res)
  from f res have u2: "unchanged h1 h2" by (simp add: fresh_over_def)
  from u have l: "length h \<le> length h1" by (simp add: unchanged_def)
  from u u2 have "unchanged h h2" by (rule unchanged_trans)
  with f res l show ?thesis
    by (auto simp: fresh_over_def split: obj.splits)
qed


lemma join_obj_fresh: "fresh_over h (join_obj h self other on)"
  unfolding join_obj_def by (rule fresh_new_table)

lemma multi_join_loop_unchanged:
  "unchanged h h1 \<Longrightarrow> unchanged h (fst (multi_join_loop h1 joined tables on))"
proof (induction tables arbitrary: h1 joined)
  case Nil
  then show ?case by simp
next
  case (Cons t ts)
  obtain h2 j2 where j: "join_obj h1 joined t on = (h2, j2)" by (cases "join_obj h1 joined t on")
  have "fresh_over h1 (h2, j2)" using join_obj_fresh [of h1 joined t on] j by simp
  then have "unchanged h1 h2" using fresh_over_unchanged by fastforce
  with Cons.prems have "unchanged h h2" by (rule unchanged_trans)
  from Cons.IH [OF this] j show ?case by simp
qed

lemma multi_join_loop_fresh:
  "tables \<noteq> [] \<Longrightarrow> unchanged h h1 \<Longrightarrow> fresh_over h (multi_join_loop h1 joined tables on)"
proof (induction tables arbitrary: h1 joined)
  case Nil
  then show ?case by simp
next
  case (Cons t ts)
  obtain h2 j2 where j: "join_obj h1 joined t on = (h2, j2)" by (cases "join_obj h1 joined t on")
  have f: "fresh_over h1 (h2, j2)" using join_obj_fresh [of h1 joined t on] j by simp
  then have "unchanged h1 h2" using fresh_over_unchanged by fastforce
  with Cons.prems(2) have u: "unchanged h h2" by (rule unchanged_trans)
  show ?case
  proof (cases ts)
    case Nil
    from fresh_over_mono [OF Cons.prems(2) f] j Nil show ?thesis by simp
  next
    case (Cons a list)
    then have "ts \<noteq> []" by simp
    from Cons.IH [OF this u, of j2] j show ?thesis by simp
  qed
qed


text \<open>
  C7, as stated: every relational operator returns a new pipeline instance over a newly
  allocated sequence, \<^verbatim>\<open>order_by\<close> on unorderable values included. When the sort raises,
  \<^verbatim>\<open>order_by\<close> executes \<^verbatim>\<open>return self\<close>: for rows whose column \<open>a\<close> holds a number and a
  text it returns the instance it was called on, and allocates nothing.
\<close>

theorem order_by_failure_returns_self:
  "order_by_obj ''a'' False [ListObj [[(''a'', VInt 1)], [(''a'', VStr ''x'')]], TableQuery 0] 1
     = ([ListObj [[(''a'', VInt 1)], [(''a'', VStr ''x'')]], TableQuery 0], 1)
   \<and> \<not> fresh_over [ListObj [[(''a'', VInt 1)], [(''a'', VStr ''x'')]], TableQuery 0]
        (order_by_obj ''a'' False [ListObj [[(''a'', VInt 1)], [(''a'', VStr ''x'')]], TableQuery 0] 1)"
  by code_simp

text \<open>
  C7, amended: no relational operator changes an object that exists before it runs, so
  none mutates its input sequence. \<^verbatim>\<open>where\<close>, \<^verbatim>\<open>select\<close>, \<^verbatim>\<open>limit\<close>, \<^verbatim>\<open>join\<close>, \<^verbatim>\<open>group_by\<close> and
  \<^verbatim>\<open>having\<close> (when they return), \<^verbatim>\<open>order_by\<close> when the sort succeeds, and \<^verbatim>\<open>multi_join\<close> over
  at least one table return a new pipeline instance over a newly allocated sequence;
  \<^verbatim>\<open>order_by\<close> returns the instance it was called on when the sort fails.
\<close>

theorem operators_allocate:
  "fresh_result h (where_obj conds h self)
   \<and> fresh_over h (select_obj cols h self)
   \<and> (if py_sorted (\<lambda>r. row_get r col) desc (rows_of h self) = None
      then order_by_obj col desc h self = (h, self)
      else fresh_over h (order_by_obj col desc h self))
   \<and> fresh_over h (limit_obj n h self)
   \<and> fresh_over h (join_obj h self other on)
   \<and> (tables \<noteq> [] \<longrightarrow> fresh_over h (multi_join_obj h self tables on))
   \<and> unchanged h (fst (multi_join_obj h self tables on))
   \<and> fresh_result h (group_by_obj gcols h self)
   \<and> fresh_result h (having_obj conds h self)"
proof -
  have u1: "unchanged h (h @ [TableQuery (rows_addr h self)])"
    by (simp add: unchanged_def)
  have mj: "tables \<noteq> [] \<longrightarrow> fresh_over h (multi_join_obj h self tables on)"
    using multi_join_loop_fresh [OF _ u1] by (simp add: multi_join_obj_def alloc_def)
  have mu: "unchanged h (fst (multi_join_obj h self tables on))"
    using multi_join_loop_unchanged [OF u1] by (simp add: multi_join_obj_def alloc_def)
  have fr: "fresh_result h (case x of Inl e \<Rightarrow> Inl e | Inr rs \<Rightarrow> Inr (new_table h rs))"
    for x :: "error + row list"
    by (cases x) (simp_all add: fresh_result_def fresh_new_table)
  have w: "fresh_result h (where_obj conds h self)"
    unfolding where_obj_def by (rule fr)
  have hv: "fresh_result h (having_obj conds h self)"
    unfolding having_obj_def by (rule fr)
  have g: "fresh_result h (group_by_obj gcols h self)"
    unfolding group_by_obj_def by (rule fr)
  have ob: "if py_sorted (\<lambda>r. row_get r col) desc (rows_of h self) = None
      then order_by_obj col desc h self = (h, self)
      else fresh_over h (order_by_obj col desc h self)"
    by (cases "py_sorted (\<lambda>r. row_get r col) desc (rows_of h self)")
       (simp_all add: order_by_obj_def fresh_new_table)
  have s: "fresh_over h (select_obj cols h self)"
    unfolding select_obj_def by (rule fresh_new_table)
  have l: "fresh_over h (limit_obj n h self)"
    unfolding limit_obj_def by (rule fresh_new_table)
  have j: "fresh_over h (join_obj h self other on)"
    by (rule join_obj_fresh)
  from w s ob l j mj mu g hv show ?thesis by blast
qed


theorem operators_allocate_witness:
  "[3::nat] \<noteq> []
   \<and> fresh_over
     [ListObj [[(''id'', VInt 1)], [(''id'', VInt 2)]], TableQuery 0,
      ListObj [[(''id'', VInt 1), (''x'', VStr ''u'')]], TableQuery 2]
     (multi_join_obj
     [ListObj [[(''id'', VInt 1)], [(''id'', VInt 2)]], TableQuery 0,
      ListObj [[(''id'', VInt 1), (''x'', VStr ''u'')]], TableQuery 2] 1 [3] ''id'')
   \<and> multi_join_obj
     [ListObj [[(''id'', VInt 1)], [(''id'', VInt 2)]], TableQuery 0,
      ListObj [[(''id'', VInt 1), (''x'', VStr ''u'')]], TableQuery 2] 1 [3] ''id''
     = ([ListObj [[(''id'', VInt 1)], [(''id'', VInt 2)]], TableQuery 0,
      ListObj [[(''id'', VInt 1), (''x'', VStr ''u'')]], TableQuery 2]
        @ [TableQuery 0, ListObj [[(''id'', VInt 1), (''x'', VStr ''u'')]], TableQuery 5], 6)
   \<and> order_by_obj ''id'' True
     [ListObj [[(''id'', VInt 1)], [(''id'', VInt 2)]], TableQuery 0,
      ListObj [[(''id'', VInt 1), (''x'', VStr ''u'')]], TableQuery 2] 1
     = ([ListObj [[(''id'', VInt 1)], [(''id'', VInt 2)]], TableQuery 0,
      ListObj [[(''id'', VInt 1), (''x'', VStr ''u'')]], TableQuery 2]
        @ [ListObj [[(''id'', VInt 2)], [(''id'', VInt 1)]], TableQuery 4], 5)"
proof -
  have e1: "multi_join_obj
     [ListObj [[(''id'', VInt 1)], [(''id'', VInt 2)]], TableQuery 0,
      ListObj [[(''id'', VInt 1), (''x'', VStr ''u'')]], TableQuery 2] 1 [3] ''id''
     = ([ListObj [[(''id'', VInt 1)], [(''id'', VInt 2)]], TableQuery 0,
      ListObj [[(''id'', VInt 1), (''x'', VStr ''u'')]], TableQuery 2]
        @ [TableQuery 0, ListObj [[(''id'', VInt 1), (''x'', VStr ''u'')]], TableQuery 5], 6)"
    by code_simp
  have e2: "order_by_obj ''id'' True
     [ListObj [[(''id'', VInt 1)], [(''id'', VInt 2)]], TableQuery 0,
      ListObj [[(''id'', VInt 1), (''x'', VStr ''u'')]], TableQuery 2] 1
     = ([ListObj [[(''id'', VInt 1)], [(''id'', VInt 2)]], TableQuery 0,
      ListObj [[(''id'', VInt 1), (''x'', VStr ''u'')]], TableQuery 2]
        @ [ListObj [[(''id'', VInt 2)], [(''id'', VInt 1)]], TableQuery 4], 5)"
    by code_simp
  from operators_allocate [where h = "[ListObj [[(''id'', VInt 1)], [(''id'', VInt 2)]], TableQuery 0,
      ListObj [[(''id'', VInt 1), (''x'', VStr ''u'')]], TableQuery 2]"
      and self = 1 and tables = "[3]" and on = "''id''"] e1 e2
  show ?thesis by simp
qed

section \<open>A query, from its text to its result\<close>

text \<open>
  C6. Over the table \<open>T\<close> with the three records \<^verbatim>\<open>{id:1,amt:10}\<close>, \<^verbatim>\<open>{id:1,amt:20}\<close> and
  \<^verbatim>\<open>{id:2,amt:5}\<close>, the query \<^verbatim>\<open>SELECT id FROM T WHERE amt > 8 ORDER BY id DESC LIMIT 1\<close>
  returns exactly the one record \<^verbatim>\<open>{id: 1}\<close>: the filter keeps the two records with
  \<open>id = 1\<close>, the stable descending sort leaves them in place, the limit keeps the first,
  and the projection keeps its column \<open>id\<close>.
\<close>

theorem scenario_where_order_limit:
  "run [(''T'', [[(''id'', VInt 1), (''amt'', VInt 10)],
                [(''id'', VInt 1), (''amt'', VInt 20)],
                [(''id'', VInt 2), (''amt'', VInt 5)]])]
       ''SELECT id FROM T WHERE amt > 8 ORDER BY id DESC LIMIT 1''
   = Inr [[(''id'', VInt 1)]]"
  by code_simp

end
